theory Spec2Isabelle
  imports Complex_Main
begin

section \<open>Numbers\<close>

text \<open>
  The program computes with JavaScript numbers (IEEE doubles). A finite number is a
  \<open>real\<close>; a value that need not be finite (\<open>new Date(s).getTime()\<close> on a string
  that is no date, a loop variable, a quotient) is a \<open>jsnum\<close>.

  The playback clock and the colour ramp are written with exact arithmetic. The grids and
  the tidal model are written with the rounding of doubles, \<open>fl\<close>, at every operation,
  since what they return depends on it: a sum that is absorbed, a last grid line lost to
  accumulated error, a product one unit in the last place above the exact one. Overflow
  to an infinity is modelled where the result is a \<open>jsnum\<close> (the loop variables and the
  longitude step); the other intermediate results are finite for finite arguments, except
  the sum \<open>minLat + maxLat\<close> when it exceeds the largest double.
\<close>

datatype jsnum = NaN | NegInf | PosInf | Fin real

text \<open>\<open>a <= b\<close> and \<open>a >= b\<close> of JavaScript: false as soon as one side is NaN.\<close>

fun js_le :: "jsnum \<Rightarrow> jsnum \<Rightarrow> bool" where
  "js_le NaN _ = False"
| "js_le _ NaN = False"
| "js_le NegInf _ = True"
| "js_le _ PosInf = True"
| "js_le (Fin a) (Fin b) = (a \<le> b)"
| "js_le _ _ = False"

definition js_ge :: "jsnum \<Rightarrow> jsnum \<Rightarrow> bool" where
  "js_ge a b = js_le b a"

text \<open>
  Rounding to the nearest double, ties to the even significand: 53 significant bits, and
  below \<open>pow2 (-1022)\<close> the fixed spacing \<open>pow2 (-1074)\<close> of the subnormal numbers.
  \<open>pow2 k\<close> is the power of two with exponent \<open>k\<close>, \<open>rne\<close> rounds to the nearest integer, ties to even,
  \<open>bexp x\<close> is the binary exponent of \<open>x\<close>, not below \<open>-1022\<close>, and \<open>ulp x\<close> the
  spacing of the doubles around \<open>x\<close>.
\<close>

definition pow2 :: "int \<Rightarrow> real" where
  "pow2 k = (if 0 \<le> k then 2 ^ nat k else 1 / 2 ^ nat (- k))"

definition rne :: "real \<Rightarrow> int" where
  "rne x =
     (let f = \<lfloor>x\<rfloor>; d = x - of_int f in
      if d < 1 / 2 then f else if 1 / 2 < d then f + 1 else if even f then f else f + 1)"

definition expo :: "real \<Rightarrow> int" where
  "expo x = \<lfloor>log 2 \<bar>x\<bar>\<rfloor>"

definition bexp :: "real \<Rightarrow> int" where
  "bexp x = max (expo x) (- 1022)"

definition ulp :: "real \<Rightarrow> real" where
  "ulp x = pow2 (bexp x - 52)"

definition fl :: "real \<Rightarrow> real" where
  "fl x = (if x = 0 then 0 else of_int (rne (x / ulp x)) * ulp x)"

text \<open>
  The result of an operation whose exact value is \<open>x\<close>: the rounded value, or an infinity
  when that is beyond the largest double. The zero of the model has no sign.
\<close>

definition js_round :: "real \<Rightarrow> jsnum" where
  "js_round x =
     (if pow2 1024 \<le> \<bar>fl x\<bar> then (if 0 < x then PosInf else NegInf) else Fin (fl x))"

text \<open>The finite numbers that are doubles.\<close>

definition isDouble :: "real \<Rightarrow> bool" where
  "isDouble x \<longleftrightarrow> fl x = x \<and> \<bar>x\<bar> < pow2 1024"

text \<open>\<open>a + b\<close> of JavaScript.\<close>

fun js_add :: "jsnum \<Rightarrow> jsnum \<Rightarrow> jsnum" where
  "js_add NaN _ = NaN"
| "js_add _ NaN = NaN"
| "js_add (Fin a) (Fin b) = js_round (a + b)"
| "js_add PosInf NegInf = NaN"
| "js_add NegInf PosInf = NaN"
| "js_add PosInf _ = PosInf"
| "js_add NegInf _ = NegInf"
| "js_add _ PosInf = PosInf"
| "js_add _ NegInf = NegInf"

text \<open>
  \<open>a / b\<close> of JavaScript on two finite numbers: a zero divisor gives an infinity with
  the sign of the dividend, and NaN for \<open>0 / 0\<close>.
\<close>

definition js_div :: "real \<Rightarrow> real \<Rightarrow> jsnum" where
  "js_div a b =
     (if b \<noteq> 0 then js_round (a / b)
      else if 0 < a then PosInf else if a < 0 then NegInf else NaN)"

text \<open>
  \<open>a % b\<close> of JavaScript on finite numbers with \<open>b \<noteq> 0\<close>: the remainder of the
  division truncated towards zero, so it has the sign of the dividend. It is exact: the
  remainder of two doubles is a double.
\<close>

definition js_trunc :: "real \<Rightarrow> int" where
  "js_trunc x = (if 0 \<le> x then \<lfloor>x\<rfloor> else \<lceil>x\<rceil>)"

definition js_rem :: "real \<Rightarrow> real \<Rightarrow> real" where
  "js_rem a b = a - b * of_int (js_trunc (a / b))"

text \<open>
  \<open>Math.PI\<close> is the double nearest to \<open>\<pi>\<close>. \<open>Math.cos\<close>, \<open>Math.sin\<close> and
  \<open>Math.atan2\<close> are taken as the real function, rounded to the nearest double. \<open>atan2 y x\<close> is the angle of
  the point \<open>(x, y)\<close> in \<open>(-\<pi>, \<pi>]\<close>, and 0 at the origin.
\<close>

definition Math_PI :: real where
  "Math_PI = 884279719003555 / 281474976710656"

definition Math_cos :: "real \<Rightarrow> real" where
  "Math_cos x = fl (cos x)"

definition Math_sin :: "real \<Rightarrow> real" where
  "Math_sin x = fl (sin x)"

definition atan2 :: "real \<Rightarrow> real \<Rightarrow> real" where
  "atan2 y x =
     (if 0 < x then arctan (y / x)
      else if x < 0 then (if 0 \<le> y then arctan (y / x) + pi else arctan (y / x) - pi)
      else if 0 < y then pi / 2
      else if y < 0 then - (pi / 2)
      else 0)"

definition Math_atan2 :: "real \<Rightarrow> real \<Rightarrow> real" where
  "Math_atan2 y x = fl (atan2 y x)"

text \<open>The partial sums of the series of the arctangent, for bounds on \<open>\<pi>\<close>.\<close>

fun arctan_sum :: "real \<Rightarrow> nat \<Rightarrow> real" where
  "arctan_sum x 0 = 0"
| "arctan_sum x (Suc n) = arctan_sum x n + (- 1) ^ n * (1 / real (n * 2 + 1) * x ^ (n * 2 + 1))"

text \<open>
  \<open>xs[i]\<close> of JavaScript: \<open>undefined\<close> (here \<open>None\<close>) outside the array, also at
  index \<open>-1\<close>.
\<close>

definition js_index :: "'a list \<Rightarrow> int \<Rightarrow> 'a option" where
  "js_index xs i = (if 0 \<le> i \<and> i < int (length xs) then Some (xs ! nat i) else None)"

text \<open>\<open>xs.findIndex(p)\<close>: the index of the first element satisfying \<open>p\<close>, or \<open>-1\<close>.\<close>

fun findIndex :: "('a \<Rightarrow> bool) \<Rightarrow> 'a list \<Rightarrow> int" where
  "findIndex p [] = - 1"
| "findIndex p (x # xs) =
     (if p x then 0 else (let i = findIndex p xs in if i < 0 then - 1 else i + 1))"


section \<open>Playback clock (component RaceMap)\<close>

text \<open>
  The React state of the component that the clock uses: \<open>currentTime\<close>,
  \<open>isPlaying\<close>, \<open>playbackSpeed\<close>. \<open>endTime\<close> is \<open>raceData.endTime\<close>.
\<close>

record PlaybackState =
  currentTime :: real
  isPlaying :: bool
  playbackSpeed :: real

text \<open>
  One run of \<open>animate\<close>. \<open>requestAnimationFrame\<close> calls it with the time stamp of the
  frame (\<open>frameTimestamp\<close>), which \<open>animate\<close> does not read: it advances by
  \<open>1000 * playbackSpeed * (1/60)\<close>.
\<close>

definition animate :: "real \<Rightarrow> real \<Rightarrow> PlaybackState \<Rightarrow> PlaybackState" where
  "animate frameTimestamp endTime st =
     (let next = currentTime st + 1000 * playbackSpeed st * (1 / 60) in
      if next > endTime then st\<lparr>currentTime := endTime, isPlaying := False\<rparr>
      else st\<lparr>currentTime := next\<rparr>)"

text \<open>The effect schedules \<open>animate\<close> only while \<open>isPlaying\<close>.\<close>

definition tick :: "real \<Rightarrow> real \<Rightarrow> PlaybackState \<Rightarrow> PlaybackState" where
  "tick frameTimestamp endTime st =
     (if isPlaying st then animate frameTimestamp endTime st else st)"

text \<open>\<open>handleSliderChange\<close>: \<open>setCurrentTime(Number(e.target.value))\<close>.\<close>

definition handleSliderChange :: "real \<Rightarrow> PlaybackState \<Rightarrow> PlaybackState" where
  "handleSliderChange v st = st\<lparr>currentTime := v\<rparr>"

text \<open>
  The single PLAY/PAUSE button: \<open>setIsPlaying(!isPlaying)\<close>. It is labelled PLAY while
  stopped and PAUSE while playing, so \<open>play\<close> is the click while stopped and \<open>pause\<close>
  the click while playing.
\<close>

definition togglePlay :: "PlaybackState \<Rightarrow> PlaybackState" where
  "togglePlay st = st\<lparr>isPlaying := \<not> isPlaying st\<rparr>"

definition play :: "PlaybackState \<Rightarrow> PlaybackState" where
  "play st = (if isPlaying st then st else togglePlay st)"

definition pause :: "PlaybackState \<Rightarrow> PlaybackState" where
  "pause st = (if isPlaying st then togglePlay st else st)"

text \<open>
  The state once the track is loaded: \<open>setCurrentTime(data.startTime)\<close>,
  \<open>useState(false)\<close>, \<open>useState(100)\<close>.
\<close>

definition initialState :: "real \<Rightarrow> PlaybackState" where
  "initialState startTime =
     \<lparr>currentTime = startTime, isPlaying = False, playbackSpeed = 100\<rparr>"

datatype clock_op = Play | Pause | Seek real | Tick real

fun apply_op :: "real \<Rightarrow> PlaybackState \<Rightarrow> clock_op \<Rightarrow> PlaybackState" where
  "apply_op endTime st Play = play st"
| "apply_op endTime st Pause = pause st"
| "apply_op endTime st (Seek v) = handleSliderChange v st"
| "apply_op endTime st (Tick frameTimestamp) = tick frameTimestamp endTime st"

definition run_ops :: "real \<Rightarrow> PlaybackState \<Rightarrow> clock_op list \<Rightarrow> PlaybackState" where
  "run_ops endTime st ops = foldl (apply_op endTime) st ops"

fun seek_in_range :: "real \<Rightarrow> real \<Rightarrow> clock_op \<Rightarrow> bool" where
  "seek_in_range startTime endTime (Seek v) = (startTime \<le> v \<and> v \<le> endTime)"
| "seek_in_range startTime endTime _ = True"


section \<open>Track loading (parseGPX)\<close>

record TrackPoint =
  longitude :: real
  latitude :: real
  timestamp :: jsnum
  elevation :: real

text \<open>
  The GeoJSON that \<open>gpx(xmlDoc)\<close> returns, as far as \<open>parseGPX\<close> reads it: the list of
  features, each with a geometry and \<open>properties.coordTimes\<close>. A position is
  \<open>[lon, lat]\<close> or \<open>[lon, lat, ele]\<close>. An entry of \<open>coordTimes\<close> that is
  \<open>null\<close> or \<open>undefined\<close> is \<open>None\<close>; a feature without \<open>coordTimes\<close> has
  \<open>None\<close> for the whole array.
\<close>

type_synonym position = "real \<times> real \<times> real option"

datatype geometry = LineString "position list" | OtherGeometry

record feature =
  geometry :: geometry
  coordTimes :: "string option list option"

record RaceData =
  geojson :: "feature list"
  trackPoints :: "TrackPoint list"
  startTime :: jsnum
  endTime :: jsnum

fun isLineString :: "feature \<Rightarrow> bool" where
  "isLineString f = (case geometry f of LineString _ \<Rightarrow> True | OtherGeometry \<Rightarrow> False)"

text \<open>\<open>times[index]\<close>, \<open>undefined\<close> beyond the end of the array.\<close>

definition timeStrAt :: "string option list \<Rightarrow> nat \<Rightarrow> string option" where
  "timeStrAt timesArr index =
     (case js_index timesArr (int index) of None \<Rightarrow> None | Some t \<Rightarrow> t)"

text \<open>
  The body of the \<open>forEach\<close>: \<open>if (timeStr)\<close> holds for a string that is not empty.
  \<open>getTime\<close> stands for \<open>new Date(timeStr).getTime()\<close>, which is NaN on a string
  that is no date. \<open>coord[2] || 0\<close> is 0 for a position without elevation.
\<close>

definition toTrackPoint :: "(string \<Rightarrow> jsnum) \<Rightarrow> position \<Rightarrow> string \<Rightarrow> TrackPoint" where
  "toTrackPoint getTime coord timeStr =
     \<lparr>longitude = fst coord, latitude = fst (snd coord),
      timestamp = getTime timeStr,
      elevation = (case snd (snd coord) of None \<Rightarrow> 0 | Some e \<Rightarrow> e)\<rparr>"

definition pushPoint ::
  "(string \<Rightarrow> jsnum) \<Rightarrow> string option list \<Rightarrow> TrackPoint list \<Rightarrow> position \<times> nat
     \<Rightarrow> TrackPoint list" where
  "pushPoint getTime timesArr acc ci =
     (case timeStrAt timesArr (snd ci) of
        None \<Rightarrow> acc
      | Some timeStr \<Rightarrow>
          if timeStr \<noteq> [] then acc @ [toTrackPoint getTime (fst ci) timeStr] else acc)"

definition parseGPX :: "(string \<Rightarrow> jsnum) \<Rightarrow> feature list \<Rightarrow> RaceData" where
  "parseGPX getTime features =
     (let track = find isLineString features;
          points =
            (case track of
               None \<Rightarrow> []
             | Some f \<Rightarrow>
                 (case geometry f of
                    LineString coords \<Rightarrow>
                      foldl (pushPoint getTime
                               (case coordTimes f of None \<Rightarrow> [] | Some ts \<Rightarrow> ts))
                        [] (zip coords [0 ..< length coords])
                  | OtherGeometry \<Rightarrow> []));
          t0 = (if length points > 0 then timestamp (points ! 0) else Fin 0);
          t1 = (if length points > 0 then timestamp (points ! (length points - 1))
                else Fin 0)
      in \<lparr>geojson = features, trackPoints = points, startTime = t0, endTime = t1\<rparr>)"

text \<open>
  The values of \<open>new Date(s).getTime()\<close> at the strings of the examples below; a string
  that is no date gives NaN.
\<close>

definition example_getTime :: "string \<Rightarrow> jsnum" where
  "example_getTime s =
     (if s = ''2024-06-01T10:00:00Z'' then Fin 1717236000000
      else if s = ''2024-06-01T11:00:00Z'' then Fin 1717239600000
      else NaN)"


text \<open>
  What the loader keeps, said directly: the input points that have a time stamp, in the
  order of the input.
\<close>

definition hasTime :: "string option list \<Rightarrow> nat \<Rightarrow> bool" where
  "hasTime timesArr i =
     (case timeStrAt timesArr i of None \<Rightarrow> False | Some s \<Rightarrow> s \<noteq> [])"

definition pointsWithTime ::
  "(string \<Rightarrow> jsnum) \<Rightarrow> position list \<Rightarrow> string option list \<Rightarrow> TrackPoint list" where
  "pointsWithTime getTime coords timesArr =
     map (\<lambda>i. toTrackPoint getTime (coords ! i) (the (timeStrAt timesArr i)))
       (filter (hasTime timesArr) [0 ..< length coords])"


section \<open>The position marker (component RaceMap)\<close>

text \<open>
  \<open>currentPoint\<close> of the \<open>layers\<close> memo: the point at \<open>findIndex\<close>, or the last
  point when \<open>findIndex\<close> is \<open>-1\<close>; \<open>undefined\<close> (\<open>None\<close>) on an empty track.
\<close>

definition currentPoint :: "TrackPoint list \<Rightarrow> jsnum \<Rightarrow> TrackPoint option" where
  "currentPoint points t =
     (let currentPointIndex = findIndex (\<lambda>p. js_ge (timestamp p) t) points in
      if currentPointIndex \<ge> 0 then js_index points currentPointIndex
      else js_index points (int (length points) - 1))"

text \<open>
  \<open>markerLayer\<close>: a layer whose data is \<open>[currentPoint]\<close>, or \<open>null\<close> (\<open>None\<close>) when
  there is no current point. \<open>getPosition\<close> is the accessor of the layer.
\<close>

definition getPosition :: "TrackPoint \<Rightarrow> real \<times> real" where
  "getPosition d = (longitude d, latitude d)"

definition markerLayer :: "TrackPoint list \<Rightarrow> jsnum \<Rightarrow> TrackPoint list option" where
  "markerLayer points t =
     (case currentPoint points t of None \<Rightarrow> None | Some p \<Rightarrow> Some [p])"


section \<open>Stepping loops\<close>

text \<open>
  \<open>for (let x = lo; x <= hi; x += step) body\<close>, with the state the body updates passed
  along. The loop need not end (a step that is not positive, or so small that the sum is
  rounded back to \<open>x\<close>), so the result is an option and \<open>None\<close> stands for a loop
  that does not return.
\<close>

partial_function (option) forLoop ::
  "(jsnum \<Rightarrow> 's \<Rightarrow> 's option) \<Rightarrow> jsnum \<Rightarrow> jsnum \<Rightarrow> jsnum \<Rightarrow> 's \<Rightarrow> 's option" where
  "forLoop body x hi step s =
     (if js_le x hi
      then Option.bind (body x s) (\<lambda>s'. forLoop body (js_add x step) hi step s')
      else Some s)"


section \<open>Reference grid (utils/gridGenerator)\<close>

record GridLine =
  path :: "(jsnum \<times> jsnum) list"

definition latitudeLine :: "real \<Rightarrow> real \<Rightarrow> jsnum \<Rightarrow> GridLine" where
  "latitudeLine minLon maxLon lat = \<lparr>path = [(Fin minLon, lat), (Fin maxLon, lat)]\<rparr>"

definition longitudeLine :: "real \<Rightarrow> real \<Rightarrow> jsnum \<Rightarrow> GridLine" where
  "longitudeLine minLat maxLat lon = \<lparr>path = [(lon, Fin minLat), (lon, Fin maxLat)]\<rparr>"

text \<open>\<open>latSpacing = spacingNm / 60\<close>.\<close>

definition latSpacing :: "real \<Rightarrow> real" where
  "latSpacing spacingNm = fl (spacingNm / 60)"

text \<open>\<open>centerLatRad = ((minLat + maxLat) / 2) * (Math.PI / 180)\<close>.\<close>

definition centerLatRad :: "real \<times> real \<times> real \<times> real \<Rightarrow> real" where
  "centerLatRad bounds =
     (case bounds of (minLon, minLat, maxLon, maxLat) \<Rightarrow>
        fl (fl (fl (minLat + maxLat) / 2) * fl (Math_PI / 180)))"

text \<open>\<open>lonSpacing = spacingNm / (60 * Math.cos(centerLatRad))\<close>.\<close>

definition lonSpacing :: "real \<times> real \<times> real \<times> real \<Rightarrow> real \<Rightarrow> jsnum" where
  "lonSpacing bounds spacingNm =
     js_div spacingNm (fl (60 * Math_cos (centerLatRad bounds)))"

definition generateGrid :: "real \<times> real \<times> real \<times> real \<Rightarrow> real \<Rightarrow> GridLine list option" where
  "generateGrid bounds spacingNm =
     (case bounds of (minLon, minLat, maxLon, maxLat) \<Rightarrow>
        Option.bind
          (forLoop (\<lambda>lat lines. Some (lines @ [latitudeLine minLon maxLon lat]))
             (Fin minLat) (Fin maxLat) (Fin (latSpacing spacingNm)) [])
          (\<lambda>lines.
             forLoop (\<lambda>lon lines. Some (lines @ [longitudeLine minLat maxLat lon]))
               (Fin minLon) (Fin maxLon) (lonSpacing bounds spacingNm) lines))"





section \<open>Current field (services/currents)\<close>

text \<open>
  \<open>TIDE_PERIOD_MS = 12.42 * 3600 * 1000\<close> (its value is 44712000),
  \<open>MAX_CURRENT_SPEED = 1.5\<close>, \<open>FLOOD_DIR_RAD = (45 * Math.PI) / 180\<close>. A decimal
  literal of the source is the double nearest to it.
\<close>

definition TIDE_PERIOD_MS :: real where
  "TIDE_PERIOD_MS = fl (fl (fl 12.42 * 3600) * 1000)"

definition MAX_CURRENT_SPEED :: real where
  "MAX_CURRENT_SPEED = 1.5"

definition FLOOD_DIR_RAD :: real where
  "FLOOD_DIR_RAD = fl (fl (45 * Math_PI) / 180)"

definition getColor :: "real \<Rightarrow> real \<times> real \<times> real" where
  "getColor speed =
     (let intensity = min (speed / MAX_CURRENT_SPEED) 1 in
      if intensity < 0.5 then
        (let t = intensity * 2 in
         (30 + (88 - 30) * t, 58 + (28 - 58) * t, 138 + (135 - 138) * t))
      else
        (let t = (intensity - 0.5) * 2 in
         (88 + (255 - 88) * t, 28 + (0 - 28) * t, 135 + (200 - 135) * t)))"

text \<open>
  The colour ramp in the words of the specification: the speed normalised by the maximum
  and clamped to \<open>[0, 1]\<close>, then, channel by channel, the line from "slow" to "mid" over
  \<open>[0, 0.5]\<close> and the line from "mid" to "fast" over \<open>(0.5, 1]\<close>.
\<close>

definition slowColor :: "real \<times> real \<times> real" where "slowColor = (30, 58, 138)"
definition midColor :: "real \<times> real \<times> real" where "midColor = (88, 28, 135)"
definition fastColor :: "real \<times> real \<times> real" where "fastColor = (255, 0, 200)"

definition lerp :: "real \<Rightarrow> real \<Rightarrow> real \<Rightarrow> real" where
  "lerp a b t = a + (b - a) * t"

fun lerp3 :: "real \<times> real \<times> real \<Rightarrow> real \<times> real \<times> real \<Rightarrow> real \<Rightarrow> real \<times> real \<times> real" where
  "lerp3 (r1, g1, b1) (r2, g2, b2) t = (lerp r1 r2 t, lerp g1 g2 t, lerp b1 b2 t)"

definition spec_colorRamp :: "real \<Rightarrow> real \<times> real \<times> real" where
  "spec_colorRamp s =
     (let x = max 0 (min (s / MAX_CURRENT_SPEED) 1) in
      if x \<le> 0.5 then lerp3 slowColor midColor (x / 0.5)
      else lerp3 midColor fastColor ((x - 0.5) / 0.5))"

text \<open>The object pushed for a sample point.\<close>

record GridPoint =
  position :: "jsnum \<times> jsnum"
  vector :: "real \<times> real \<times> real \<times> real"
  speed :: real
  color :: "real \<times> real \<times> real"

text \<open>The body of the inner loop of \<open>generateMockGrid\<close>, operation by operation.\<close>

definition currentAt ::
  "real \<Rightarrow> real \<Rightarrow> real \<Rightarrow> real \<Rightarrow> jsnum \<Rightarrow> jsnum \<Rightarrow> GridPoint" where
  "currentAt tstamp phaseOffset speedMultiplier directionOffset lon lat =
     (let phase = fl (fl (js_rem tstamp TIDE_PERIOD_MS / TIDE_PERIOD_MS) + phaseOffset);
          angle = fl (fl (phase * 2) * Math_PI);
          currentSpeedSigned =
            fl (fl (Math_cos angle * MAX_CURRENT_SPEED) * speedMultiplier);
          spd = \<bar>currentSpeedSigned\<bar>;
          flowDir = fl ((if currentSpeedSigned > 0 then FLOOD_DIR_RAD
                         else fl (FLOOD_DIR_RAD + Math_PI))
                        + directionOffset);
          u = fl (spd * Math_sin flowDir);
          v = fl (spd * Math_cos flowDir);
          direction0 = fl (fl (Math_atan2 u v * 180) / Math_PI);
          direction = (if direction0 < 0 then fl (direction0 + 360) else direction0)
      in \<lparr>position = (lon, lat), vector = (u, v, 0, direction), speed = spd,
          color = getColor spd\<rparr>)"

definition generateMockGrid ::
  "real \<times> real \<times> real \<times> real \<Rightarrow> real \<Rightarrow> real \<Rightarrow> real \<Rightarrow> real \<Rightarrow> real
     \<Rightarrow> GridPoint list option" where
  "generateMockGrid bounds tstamp resolution phaseOffset speedMultiplier directionOffset =
     (case bounds of (minLon, minLat, maxLon, maxLat) \<Rightarrow>
        forLoop
          (\<lambda>lon. forLoop
             (\<lambda>lat points.
                Some (points @
                  [currentAt tstamp phaseOffset speedMultiplier directionOffset lon lat]))
             (Fin minLat) (Fin maxLat) (Fin resolution))
          (Fin minLon) (Fin maxLon) (Fin resolution) [])"

record DataSource =
  sourceId :: string
  sourceName :: string
  description :: string
  infoUrl :: string
  qualityDescription :: string
  getGrid :: "real \<times> real \<times> real \<times> real \<Rightarrow> real \<Rightarrow> real option \<Rightarrow> GridPoint list option"

text \<open>The default of the parameter of \<open>getGrid\<close>: \<open>resolution = 0.01\<close>.\<close>

definition resolutionOrDefault :: "real option \<Rightarrow> real" where
  "resolutionOrDefault resolution = (case resolution of None \<Rightarrow> fl 0.01 | Some r \<Rightarrow> r)"

definition rws :: DataSource where
  "rws =
     \<lparr>sourceId = ''rws'',
      sourceName = ''RWS (Matroos)'',
      description = ''Rijkswaterstaat Hydro Meteo Data'',
      infoUrl = ''https://waterinfo.rws.nl/'',
      qualityDescription = ''High-resolution measurement and model data from the Dutch Ministry of Infrastructure. Validated against local buoys. Best for coastal waters.'',
      getGrid = (\<lambda>bounds tstamp resolution.
        generateMockGrid bounds tstamp (resolutionOrDefault resolution) 0 1 0)\<rparr>"

definition cmems :: DataSource where
  "cmems =
     \<lparr>sourceId = ''cmems'',
      sourceName = ''CMEMS (Copernicus)'',
      description = ''Global Ocean Physics Analysis'',
      infoUrl = ''https://marine.copernicus.eu/'',
      qualityDescription = ''Global reanalysis and forecast data. Lower resolution than RWS but covers wider offshore areas. Good for general trend analysis.'',
      getGrid = (\<lambda>bounds tstamp resolution.
        generateMockGrid bounds tstamp (resolutionOrDefault resolution)
          0.25 (fl 0.8) (fl 0.1))\<rparr>"

definition DATA_SOURCES :: "DataSource list" where
  "DATA_SOURCES = [rws, cmems]"


section \<open>Rounding: lemmas\<close>

lemma pow2_powr: "pow2 k = 2 powr (of_int k)"
  by (simp add: pow2_def powr_int)

lemma pow2_pos [simp]: "0 < pow2 k"
  by (simp add: pow2_powr)

lemma pow2_nonneg [simp]: "0 \<le> pow2 k"
  using pow2_pos [of k] by linarith

lemma pow2_neq0 [simp]: "pow2 k \<noteq> 0"
  using pow2_pos [of k] by linarith

lemma pow2_add: "pow2 (a + b) = pow2 a * pow2 b"
  by (simp add: pow2_powr powr_add)

lemma pow2_le [simp]: "pow2 a \<le> pow2 b \<longleftrightarrow> a \<le> b"
  by (simp add: pow2_powr)

lemma pow2_less [simp]: "pow2 a < pow2 b \<longleftrightarrow> a < b"
  by (simp add: pow2_powr)

lemma pow2_of_nat: "pow2 (int n) = 2 ^ n"
  by (simp add: pow2_def)

lemma rne_of_int: "rne (of_int n) = n"
  by (simp add: rne_def)

lemma rne_bounds: "\<lfloor>x\<rfloor> \<le> rne x" "rne x \<le> \<lfloor>x\<rfloor> + 1"
  by (simp_all add: rne_def Let_def)

lemma rne_mono:
  assumes "x \<le> y"
  shows "rne x \<le> rne y"
proof (cases "\<lfloor>x\<rfloor> = \<lfloor>y\<rfloor>")
  case True
  then show ?thesis
    using assms by (auto simp add: rne_def Let_def)
next
  case False
  with assms have "\<lfloor>x\<rfloor> + 1 \<le> \<lfloor>y\<rfloor>"
    using floor_mono [OF assms] by linarith
  then show ?thesis
    using rne_bounds(2) [of x] rne_bounds(1) [of y] by linarith
qed

lemma rne_minus: "rne (- x) = - rne x"
proof (cases "x = of_int \<lfloor>x\<rfloor>")
  case True
  then have "rne (- x) = rne (of_int (- \<lfloor>x\<rfloor>))" by simp
  also have "\<dots> = - \<lfloor>x\<rfloor>" by (simp only: rne_of_int)
  also have "\<dots> = - rne (of_int \<lfloor>x\<rfloor>)" by (simp only: rne_of_int)
  finally show ?thesis using True by simp
next
  case False
  then have f: "\<lfloor>- x\<rfloor> = - \<lfloor>x\<rfloor> - 1"
    by (simp add: floor_minus ceiling_altdef)
  have e: "even (- \<lfloor>x\<rfloor> - 1) = odd \<lfloor>x\<rfloor>" by simp
  show ?thesis
    unfolding rne_def Let_def f e
    by (auto simp add: algebra_simps)
qed

lemma expo_bounds:
  assumes "x \<noteq> 0"
  shows "pow2 (expo x) \<le> \<bar>x\<bar>" "\<bar>x\<bar> < pow2 (expo x + 1)"
proof -
  have "0 < \<bar>x\<bar>" using assms by simp
  from floor_log_eq_powr_iff [OF this, of 2 "expo x"]
  have "2 powr (of_int (expo x)) \<le> \<bar>x\<bar> \<and> \<bar>x\<bar> < 2 powr (of_int (expo x) + 1)"
    by (simp add: expo_def)
  then show "pow2 (expo x) \<le> \<bar>x\<bar>" "\<bar>x\<bar> < pow2 (expo x + 1)"
    by (simp_all add: pow2_powr)
qed

lemma expo_eqI:
  assumes "pow2 e \<le> \<bar>x\<bar>" "\<bar>x\<bar> < pow2 (e + 1)"
  shows "expo x = e"
proof -
  have "0 < pow2 e" by simp
  with assms(1) have "0 < \<bar>x\<bar>" by linarith
  from floor_log_eq_powr_iff [OF this, of 2 e] assms
  show ?thesis
    by (simp add: expo_def pow2_powr)
qed

lemma expo_minus: "expo (- x) = expo x"
  by (simp add: expo_def)

lemma ulp_minus: "ulp (- x) = ulp x"
  by (simp add: ulp_def bexp_def expo_minus)

lemma ulp_pos [simp]: "0 < ulp x"
  by (simp add: ulp_def)

lemma ulp_nonneg [simp]: "0 \<le> ulp x"
  using ulp_pos [of x] by linarith

lemma ulp_neq0 [simp]: "ulp x \<noteq> 0"
  using ulp_pos [of x] by linarith

lemma fl_minus: "fl (- x) = - fl x"
  by (simp add: fl_def ulp_minus rne_minus)

lemma fl_eqI:
  assumes "pow2 e \<le> \<bar>x\<bar>" "\<bar>x\<bar> < pow2 (e + 1)" "- 1022 \<le> e"
    and "rne (x / pow2 (e - 52)) = m"
  shows "fl x = of_int m * pow2 (e - 52)"
proof -
  have "x \<noteq> 0"
    using pow2_pos [of e] assms(1) by linarith
  moreover have "ulp x = pow2 (e - 52)"
    using expo_eqI [OF assms(1,2)] assms(3) by (simp add: ulp_def bexp_def max_def)
  ultimately show ?thesis
    using assms(4) by (simp add: fl_def)
qed


lemma expo_mono:
  assumes "0 < x" "x \<le> y"
  shows "expo x \<le> expo y"
proof -
  have "log 2 \<bar>x\<bar> \<le> log 2 \<bar>y\<bar>"
    using assms by simp
  then show ?thesis
    unfolding expo_def by (rule floor_mono)
qed

lemma ulp_bexp: "ulp x = pow2 (bexp x - 52)"
  by (simp add: ulp_def)

lemma bexp_mono: "0 < x \<Longrightarrow> x \<le> y \<Longrightarrow> bexp x \<le> bexp y"
  using expo_mono [of x y] by (simp add: bexp_def)

lemma below_next_binade:
  assumes "0 < x"
  shows "x < pow2 (bexp x + 1)"
proof -
  have "x < pow2 (expo x + 1)"
    using expo_bounds(2) [of x] assms by simp
  also have "\<dots> \<le> pow2 (bexp x + 1)"
    by (simp add: bexp_def)
  finally show ?thesis .
qed

lemma above_binade:
  assumes "0 < x" "- 1022 < bexp x"
  shows "pow2 (bexp x) \<le> x"
proof -
  from assms(2) have "bexp x = expo x" by (simp add: bexp_def max_def split: if_splits)
  then show ?thesis
    using expo_bounds(1) [of x] assms(1) by simp
qed

lemma pow2_ratio: "pow2 a / pow2 b = pow2 (a - b)"
proof -
  have "pow2 a = pow2 (a - b) * pow2 b"
    using pow2_add [of "a - b" b] by simp
  then show ?thesis by simp
qed

lemma pow2_int: "0 \<le> k \<Longrightarrow> pow2 k = of_int (2 ^ nat k)"
  by (simp add: pow2_def)

lemma fl_nonneg:
  assumes "0 \<le> x"
  shows "0 \<le> fl x"
proof (cases "x = 0")
  case True
  then show ?thesis by (simp add: fl_def)
next
  case False
  have "0 \<le> x / ulp x" using assms ulp_pos [of x] by simp
  then have "0 \<le> \<lfloor>x / ulp x\<rfloor>" by simp
  with rne_bounds(1) [of "x / ulp x"] have "0 \<le> rne (x / ulp x)" by linarith
  then show ?thesis
    using False ulp_pos [of x] by (simp add: fl_def)
qed

lemma fl_le_next_binade:
  assumes "0 < x"
  shows "fl x \<le> pow2 (bexp x + 1)"
proof -
  have "x / ulp x \<le> pow2 (bexp x + 1) / ulp x"
    using below_next_binade [OF assms] by (intro divide_right_mono) simp_all
  also have "\<dots> = pow2 (bexp x + 1) / pow2 (bexp x - 52)"
    by (simp add: ulp_bexp)
  also have "\<dots> = pow2 53"
    by (simp add: pow2_ratio)
  also have "\<dots> = of_int (2 ^ 53)"
    by (simp add: pow2_def)
  finally have "rne (x / ulp x) \<le> rne (of_int (2 ^ 53))"
    by (rule rne_mono)
  then have "rne (x / ulp x) \<le> 2 ^ 53"
    by (simp only: rne_of_int)
  then have "of_int (rne (x / ulp x)) * ulp x \<le> of_int (2 ^ 53) * ulp x"
    using ulp_pos [of x] by (intro mult_right_mono) simp_all
  also have "of_int (2 ^ 53) * ulp x = pow2 53 * pow2 (bexp x - 52)"
    by (simp add: ulp_bexp pow2_def)
  also have "\<dots> = pow2 (bexp x + 1)"
    using pow2_add [of 53 "bexp x - 52"] by (simp add: algebra_simps)
  finally show ?thesis
    using assms by (simp add: fl_def)
qed

lemma fl_ge_binade:
  assumes "0 < x" "- 1022 < bexp x"
  shows "pow2 (bexp x) \<le> fl x"
proof -
  have "pow2 (bexp x) / ulp x \<le> x / ulp x"
    using above_binade [OF assms] by (intro divide_right_mono) simp_all
  moreover have "pow2 (bexp x) / ulp x = pow2 52"
    by (simp add: ulp_bexp pow2_ratio)
  moreover have "pow2 52 = of_int (2 ^ 52)"
    by (simp add: pow2_def)
  ultimately have "rne (of_int (2 ^ 52)) \<le> rne (x / ulp x)"
    by (simp only: rne_mono)
  then have "2 ^ 52 \<le> rne (x / ulp x)"
    by (simp only: rne_of_int)
  then have "of_int (2 ^ 52) * ulp x \<le> of_int (rne (x / ulp x)) * ulp x"
    using ulp_pos [of x] by (intro mult_right_mono) simp_all
  also have "of_int (rne (x / ulp x)) * ulp x = fl x"
    using assms(1) by (simp add: fl_def)
  finally have "pow2 52 * pow2 (bexp x - 52) \<le> fl x"
    by (simp add: ulp_bexp pow2_def)
  moreover have "pow2 52 * pow2 (bexp x - 52) = pow2 (bexp x)"
    using pow2_add [of 52 "bexp x - 52"] by simp
  ultimately show ?thesis by simp
qed

lemma fl_mono_pos:
  assumes "0 < x" "x \<le> y"
  shows "fl x \<le> fl y"
proof (cases "bexp x = bexp y")
  case True
  then have u: "ulp y = ulp x" by (simp add: ulp_bexp)
  have "x / ulp x \<le> y / ulp x"
    using assms(2) by (intro divide_right_mono) simp_all
  then have "rne (x / ulp x) \<le> rne (y / ulp x)" by (rule rne_mono)
  then have "of_int (rne (x / ulp x)) * ulp x \<le> of_int (rne (y / ulp x)) * ulp x"
    using ulp_pos [of x] by (intro mult_right_mono) simp_all
  then show ?thesis
    using assms by (simp add: fl_def u)
next
  case False
  have y: "0 < y" using assms by linarith
  from False bexp_mono [OF assms] have lt: "bexp x + 1 \<le> bexp y" by linarith
  moreover have "- 1022 \<le> bexp x" by (simp add: bexp_def)
  ultimately have n: "- 1022 < bexp y" by linarith
  have "fl x \<le> pow2 (bexp x + 1)" by (rule fl_le_next_binade [OF assms(1)])
  also have "\<dots> \<le> pow2 (bexp y)" using lt by simp
  also have "\<dots> \<le> fl y" by (rule fl_ge_binade [OF y n])
  finally show ?thesis .
qed

lemma fl_mono:
  assumes "x \<le> y"
  shows "fl x \<le> fl y"
proof -
  consider "0 < x" | "x \<le> 0" "0 \<le> y" | "y < 0" by linarith
  then show ?thesis
  proof cases
    case 1
    then show ?thesis using assms by (rule fl_mono_pos)
  next
    case 2
    have "fl x = - fl (- x)" by (simp add: fl_minus)
    moreover have "0 \<le> fl (- x)" using 2(1) by (intro fl_nonneg) simp
    moreover have "0 \<le> fl y" using 2(2) by (rule fl_nonneg)
    ultimately show ?thesis by linarith
  next
    case 3
    then have "fl (- y) \<le> fl (- x)"
      using assms by (intro fl_mono_pos) simp_all
    then show ?thesis by (simp add: fl_minus)
  qed
qed

lemma fl_abs: "\<bar>fl x\<bar> = fl \<bar>x\<bar>"
proof (cases "0 \<le> x")
  case True
  then show ?thesis using fl_nonneg [of x] by simp
next
  case False
  then have "0 \<le> fl (- x)" by (intro fl_nonneg) simp
  then show ?thesis using False by (simp add: fl_minus abs_if)
qed

lemma fl_exact:
  assumes "x = of_int m * pow2 k" "\<bar>m\<bar> < 2 ^ 53" "- 1074 \<le> k"
  shows "fl x = x"
proof (cases "x = 0")
  case True
  then show ?thesis by (simp add: fl_def)
next
  case False
  have "\<bar>x\<bar> = of_int \<bar>m\<bar> * pow2 k"
    using assms(1) pow2_nonneg [of k] by (simp add: abs_mult del: pow2_nonneg)
  also have "\<dots> < of_int (2 ^ 53) * pow2 k"
    using assms(2) by (intro mult_strict_right_mono) simp_all
  also have "\<dots> = pow2 (53 + k)"
    using pow2_add [of 53 k] by (simp add: pow2_def)
  finally have "pow2 (expo x) < pow2 (53 + k)"
    using expo_bounds(1) [OF False] by linarith
  then have "expo x - 52 \<le> k" by simp
  with assms(3) have le: "bexp x - 52 \<le> k" by (simp add: bexp_def)
  define n where "n = k - (bexp x - 52)"
  have n: "0 \<le> n" using le by (simp add: n_def)
  have "x / ulp x = of_int m * (pow2 k / pow2 (bexp x - 52))"
    using assms(1) by (simp add: ulp_bexp)
  also have "\<dots> = of_int m * pow2 n"
    by (simp add: pow2_ratio n_def)
  also have "\<dots> = of_int (m * 2 ^ nat n)"
    using n by (simp add: pow2_int)
  finally have "rne (x / ulp x) = m * 2 ^ nat n"
    by (simp only: rne_of_int)
  then have "fl x = of_int m * (pow2 n * pow2 (bexp x - 52))"
    using False n by (simp add: fl_def ulp_bexp pow2_int)
  also have "pow2 n * pow2 (bexp x - 52) = pow2 k"
    using pow2_add [of n "bexp x - 52"] by (simp add: n_def)
  finally show ?thesis using assms(1) by simp
qed

lemma fl_of_int: "\<bar>n\<bar> < 2 ^ 53 \<Longrightarrow> fl (of_int n) = of_int n"
  using fl_exact [of "of_int n" n 0] by (simp add: pow2_def)

lemma fl_zero [simp]: "fl 0 = 0"
  by (simp add: fl_def)

lemma rne_abs_le:
  assumes "\<bar>x\<bar> \<le> of_int n"
  shows "\<bar>rne x\<bar> \<le> n"
proof -
  have "rne x \<le> rne (of_int n)" using assms by (intro rne_mono) linarith
  moreover have "rne (of_int (- n)) \<le> rne x" using assms by (intro rne_mono) simp
  ultimately show ?thesis unfolding rne_of_int by linarith
qed

lemma fl_idem: "fl (fl x) = fl x"
proof (cases "x = 0")
  case True
  then show ?thesis by simp
next
  case False
  define m where "m = rne (x / ulp x)"
  define k where "k = bexp x - 52"
  have flx: "fl x = of_int m * pow2 k"
    using False by (simp add: fl_def m_def k_def ulp_def)
  have k: "- 1074 \<le> k" by (simp add: k_def bexp_def)
  have "\<bar>x\<bar> < pow2 (bexp x + 1)"
  proof -
    have "\<bar>x\<bar> < pow2 (expo x + 1)" by (rule expo_bounds(2) [OF False])
    also have "\<dots> \<le> pow2 (bexp x + 1)" by (simp add: bexp_def)
    finally show ?thesis .
  qed
  then have "\<bar>x\<bar> / ulp x \<le> pow2 (bexp x + 1) / ulp x"
    by (intro divide_right_mono) simp_all
  also have "\<dots> = pow2 53" by (simp add: ulp_def pow2_ratio)
  also have "\<dots> = of_int (2 ^ 53)" by (simp add: pow2_def)
  finally have "\<bar>x / ulp x\<bar> \<le> of_int (2 ^ 53)"
    using ulp_pos [of x] by (simp add: abs_mult)
  then have m: "\<bar>m\<bar> \<le> 2 ^ 53"
    unfolding m_def by (rule rne_abs_le)
  show ?thesis
  proof (cases "\<bar>m\<bar> < 2 ^ 53")
    case True
    show ?thesis by (rule fl_exact [OF flx True k])
  next
    case False
    with m have "m = 2 ^ 53 \<or> m = - (2 ^ 53)" by linarith
    then have "fl x = of_int (if m = 2 ^ 53 then 1 else - 1) * pow2 (k + 53)"
      using pow2_add [of k 53] by (auto simp add: flx pow2_def)
    then show ?thesis
      by (rule fl_exact) (use k in simp_all)
  qed
qed

lemma fl_numeral [simp]: "(numeral k :: int) < 2 ^ 53 \<Longrightarrow> fl (numeral k) = numeral k"
  using fl_of_int [of "numeral k"] by simp

lemma fl_one [simp]: "fl 1 = 1"
  using fl_of_int [of 1] by simp

lemma fl_minus_one [simp]: "fl (- 1) = - 1"
  by (simp add: fl_minus)

lemma isDouble_zero [simp]: "isDouble 0"
  by (simp add: isDouble_def)

lemma fl_between:
  assumes "lo \<le> x" "x \<le> hi" "fl lo = lo" "fl hi = hi"
  shows "lo \<le> fl x \<and> fl x \<le> hi"
  using fl_mono [OF assms(1)] fl_mono [OF assms(2)] assms(3,4) by simp

lemma fl_abs_mult_nonneg: "0 \<le> b \<Longrightarrow> \<bar>fl (a * b)\<bar> = fl (\<bar>a\<bar> * b)"
  by (simp add: fl_abs abs_mult)





section \<open>Rounded constants\<close>

text \<open>
  The doubles that the constants and the intermediate results of the examples round to.
  Each is checked from the definition of \<open>fl\<close>: the exponent of the argument and
  the rounded significand are given, and the rest is arithmetic of rationals.
\<close>

lemma fl_tenth: "fl (1 / 10) = 3602879701896397 / 36028797018963968"
  by (rule fl_eqI [where e = "-4" and m = "7205759403792794", THEN trans])
     (simp_all add: rne_def pow2_def)

lemma fl_tenth_60: "fl (3602879701896397 / 2161727821137838080) = 7686143364045647 / 4611686018427387904"
  by (rule fl_eqI [where e = "-10" and m = "7686143364045647", THEN trans])
     (simp_all add: rne_def pow2_def)

lemma fl_ls_idem: "fl (7686143364045647 / 4611686018427387904) = 7686143364045647 / 4611686018427387904"
  by (rule fl_eqI [where e = "-10" and m = "7686143364045647", THEN trans])
     (simp_all add: rne_def pow2_def)







lemma fl_deg: "fl (176855943800711 / 10133099161583616) = 5030569068109113 / 288230376151711744"
  by (rule fl_eqI [where e = "-6" and m = "5030569068109113", THEN trans])
     (simp_all add: rne_def pow2_def)


lemma fl_center_180: "fl (226375608064910085 / 72057594037927936) = 884279719003555 / 281474976710656"
  by (rule fl_eqI [where e = "1" and m = "7074237752028440", THEN trans])
     (simp_all add: rne_def pow2_def)

lemma fl_lat_180: "fl (830111169460293868367 / 4611686018427387904) = 1583311404152477 / 8796093022208"
  by (rule fl_eqI [where e = "7" and m = "6333245616609908", THEN trans])
     (simp_all add: rne_def pow2_def)














lemma fl_12_42: "fl (621 / 50) = 6991838421492695 / 562949953421312"
  by (rule fl_eqI [where e = "3" and m = "6991838421492695", THEN trans])
     (simp_all add: rne_def pow2_def)

lemma fl_tide1: "fl (1573163644835856375 / 35184372088832) = 44712"
  by (rule fl_eqI [where e = "15" and m = "6145170487640064", THEN trans])
     (simp_all add: rne_def pow2_def)

lemma fl_T_plus: "fl (30005715271680001 / 536870912) = 55890000"
  by (rule fl_eqI [where e = "25" and m = "7501428817920000", THEN trans])
     (simp_all add: rne_def pow2_def)

lemma fl_T: "fl (6001143054336001 / 536870912) = 6001143054336001 / 536870912"
  by (rule fl_eqI [where e = "23" and m = "6001143054336001", THEN trans])
     (simp_all add: rne_def pow2_def)

lemma fl_phase1: "fl (6001143054336001 / 24004572217344000) = 4503599627370497 / 18014398509481984"
  by (rule fl_eqI [where e = "-2" and m = "4503599627370497", THEN trans])
     (simp_all add: rne_def pow2_def)

lemma fl_phase1_idem: "fl (4503599627370497 / 18014398509481984) = 4503599627370497 / 18014398509481984"
  by (rule fl_eqI [where e = "-2" and m = "4503599627370497", THEN trans])
     (simp_all add: rne_def pow2_def)

lemma fl_phase1_twice: "fl (4503599627370497 / 9007199254740992) = 4503599627370497 / 9007199254740992"
  by (rule fl_eqI [where e = "-1" and m = "4503599627370497", THEN trans])
     (simp_all add: rne_def pow2_def)

lemma fl_angle1: "fl (3982441812995698092725645116835 / 2535301200456458802993406410752) = 3537118876014221 / 2251799813685248"
  by (rule fl_eqI [where e = "0" and m = "7074237752028442", THEN trans])
     (simp_all add: rne_def pow2_def)

lemma fl_quarter: "fl (1 / 4) = 1 / 4"
  by (rule fl_eqI [where e = "-2" and m = "4503599627370496", THEN trans])
     (simp_all add: rne_def pow2_def)

lemma fl_half: "fl (1 / 2) = 1 / 2"
  by (rule fl_eqI [where e = "-1" and m = "4503599627370496", THEN trans])
     (simp_all add: rne_def pow2_def)

lemma fl_angle2: "fl (884279719003555 / 562949953421312) = 884279719003555 / 562949953421312"
  by (rule fl_eqI [where e = "0" and m = "7074237752028440", THEN trans])
     (simp_all add: rne_def pow2_def)

lemma fl_three_quarters: "fl (3 / 4) = 3 / 4"
  by (rule fl_eqI [where e = "-1" and m = "6755399441055744", THEN trans])
     (simp_all add: rne_def pow2_def)

lemma fl_pi: "fl (884279719003555 / 281474976710656) = 884279719003555 / 281474976710656"
  by (rule fl_eqI [where e = "1" and m = "7074237752028440", THEN trans])
     (simp_all add: rne_def pow2_def)

lemma fl_two_pi: "fl (884279719003555 / 140737488355328) = 884279719003555 / 140737488355328"
  by (rule fl_eqI [where e = "2" and m = "7074237752028440", THEN trans])
     (simp_all add: rne_def pow2_def)

lemma fl_0_8: "fl (4 / 5) = 3602879701896397 / 4503599627370496"
  by (rule fl_eqI [where e = "-1" and m = "7205759403792794", THEN trans])
     (simp_all add: rne_def pow2_def)

lemma fl_peak: "fl (10808639105689191 / 9007199254740992) = 1351079888211149 / 1125899906842624"
  by (rule fl_eqI [where e = "0" and m = "5404319552844596", THEN trans])
     (simp_all add: rne_def pow2_def)

lemma fl_3_2: "fl (3 / 2) = 3 / 2"
  by (rule fl_eqI [where e = "0" and m = "6755399441055744", THEN trans])
     (simp_all add: rne_def pow2_def)

lemma fl_near_one: "fl (1152921504606846975 / 1152921504606846976) = 1"
  by (rule fl_eqI [where e = "-1" and m = "9007199254740992", THEN trans])
     (simp_all add: rne_def pow2_def)

lemma fl_p53: "fl (1 / 9007199254740992) = 1 / 9007199254740992"
  by (rule fl_eqI [where e = "-53" and m = "4503599627370496", THEN trans])
     (simp_all add: rne_def pow2_def)

lemma fl_p52: "fl (1 / 4503599627370496) = 1 / 4503599627370496"
  by (rule fl_eqI [where e = "-52" and m = "4503599627370496", THEN trans])
     (simp_all add: rne_def pow2_def)

lemma fl_s53: "fl (3 / 18014398509481984) = 3 / 18014398509481984"
  by (rule fl_eqI [where e = "-53" and m = "6755399441055744", THEN trans])
     (simp_all add: rne_def pow2_def)

lemma fl_s52: "fl (3 / 9007199254740992) = 3 / 9007199254740992"
  by (rule fl_eqI [where e = "-52" and m = "6755399441055744", THEN trans])
     (simp_all add: rne_def pow2_def)


section \<open>The circle constant and the cosine: lemmas\<close>

text \<open>\<open>Math.PI\<close> is below \<open>\<pi>\<close>, by at most \<open>pow2 (-52)\<close> (Machin's formula).\<close>

lemma arctan_sum_eq:
  "arctan_sum x n = (\<Sum>i<n. (- 1) ^ i * (1 / real (i * 2 + 1) * x ^ (i * 2 + 1)))"
  by (induction n) simp_all

lemma arctan_sum_bounds:
  assumes "0 \<le> x" "x \<le> 1"
  shows "arctan_sum x (2 * n) \<le> arctan x" "arctan x \<le> arctan_sum x (2 * n + 1)"
proof -
  let ?a = "\<lambda>n. 1 / real (n * 2 + 1) * x ^ (n * 2 + 1)"
  have abs: "\<bar>x\<bar> \<le> 1" using assms by simp
  have zero: "?a \<longlonglongrightarrow> 0" by (rule zeroseq_arctan_series [OF abs])
  have pos: "0 \<le> ?a k" for k using assms by simp
  have mono: "?a (Suc k) \<le> ?a k" for k
  proof -
    have "x ^ (Suc k * 2 + 1) = x ^ (k * 2 + 1) * (x * x)"
      by (simp add: power_add)
    also have "\<dots> \<le> x ^ (k * 2 + 1) * 1"
      using assms by (intro mult_left_mono mult_le_one) simp_all
    finally have p: "x ^ (Suc k * 2 + 1) \<le> x ^ (k * 2 + 1)" by simp
    have "1 / real (Suc k * 2 + 1) * x ^ (Suc k * 2 + 1)
          \<le> 1 / real (k * 2 + 1) * x ^ (Suc k * 2 + 1)"
      using assms by (intro mult_right_mono) (simp_all add: field_simps)
    also have "\<dots> \<le> 1 / real (k * 2 + 1) * x ^ (k * 2 + 1)"
      using p by (intro mult_left_mono) simp_all
    finally show ?thesis .
  qed
  note L = summable_Leibniz' [of ?a, OF zero pos mono]
  have s: "arctan x = (\<Sum>k. (- 1) ^ k * ?a k)"
    by (rule arctan_series [OF abs])
  show "arctan_sum x (2 * n) \<le> arctan x"
    unfolding arctan_sum_eq s by (rule L(2))
  show "arctan x \<le> arctan_sum x (2 * n + 1)"
    unfolding arctan_sum_eq s by (rule L(4))
qed

lemma pi_machin: "pi = 16 * arctan (1 / 5) - 4 * arctan (1 / 239)"
  using machin by simp

lemma pi_upper: "pi \<le> Math_PI + 1 / 2 ^ 52"
proof -
  have a: "arctan (1 / 5) \<le> arctan_sum (1 / 5) (2 * 12 + 1)"
    by (rule arctan_sum_bounds) simp_all
  have b: "arctan_sum (1 / 239) (2 * 2) \<le> arctan (1 / 239)"
    by (rule arctan_sum_bounds) simp_all
  have "pi \<le> 16 * arctan_sum (1 / 5) (2 * 12 + 1) - 4 * arctan_sum (1 / 239) (2 * 2)"
    using a b by (simp add: pi_machin)
  also have "\<dots> \<le> Math_PI + 1 / 2 ^ 52"
    by (simp add: Math_PI_def eval_nat_numeral)
  finally show ?thesis .
qed

lemma pi_lower: "Math_PI \<le> pi"
proof -
  have a: "arctan_sum (1 / 5) (2 * 12) \<le> arctan (1 / 5)"
    by (rule arctan_sum_bounds) simp_all
  have b: "arctan (1 / 239) \<le> arctan_sum (1 / 239) (2 * 2 + 1)"
    by (rule arctan_sum_bounds) simp_all
  have "Math_PI \<le> 16 * arctan_sum (1 / 5) (2 * 12) - 4 * arctan_sum (1 / 239) (2 * 2 + 1)"
    by (simp add: Math_PI_def eval_nat_numeral)
  also have "\<dots> \<le> pi"
    using a b by (simp add: pi_machin)
  finally show ?thesis .
qed




lemma cos_near_one:
  fixes y :: real
  shows "1 - y\<^sup>2 / 2 \<le> cos y"
proof -
  have "\<bar>sin (y / 2)\<bar> \<le> \<bar>y / 2\<bar>"
    by (rule abs_sin_x_le_abs_x)
  then have "\<bar>sin (y / 2)\<bar>\<^sup>2 \<le> \<bar>y / 2\<bar>\<^sup>2"
    by (intro power_mono) simp_all
  then have "(sin (y / 2))\<^sup>2 \<le> y\<^sup>2 / 4"
    by (simp add: power_divide)
  moreover have "cos y = 1 - 2 * (sin (y / 2))\<^sup>2"
    using cos_double_sin [of "y / 2"] by simp
  ultimately show ?thesis by simp
qed

lemma sin_lower:
  fixes x :: real
  assumes "0 \<le> x"
  shows "x - x ^ 3 / 6 \<le> sin x"
proof -
  have s: "(\<Sum>m<3. sin_coeff m * x ^ m) = x"
    by (simp add: eval_nat_numeral sin_coeff_def)
  have f: "inverse (fact 3) * \<bar>x\<bar> ^ 3 = x ^ 3 / 6"
    using assms by (simp add: fact_numeral)
  from Maclaurin_sin_bound [of x 3] have "\<bar>sin x - x\<bar> \<le> x ^ 3 / 6"
    unfolding s f .
  then show ?thesis by linarith
qed

lemma Math_cos_zero [simp]: "Math_cos 0 = 1"
  by (simp add: Math_cos_def)

lemma Math_cos_abs_le: "\<bar>Math_cos x\<bar> \<le> 1"
proof -
  have "- 1 \<le> fl (cos x) \<and> fl (cos x) \<le> 1"
    by (rule fl_between) simp_all
  then show ?thesis by (simp add: Math_cos_def abs_le_iff)
qed

lemma Math_cos_two_pi: "Math_cos (2 * Math_PI) = 1"
proof -
  define y where "y = 2 * pi - 2 * Math_PI"
  have y: "0 \<le> y" "y \<le> 1 / 2 ^ 51"
    using pi_lower pi_upper by (simp_all add: y_def)
  have "cos (2 * Math_PI) = cos (2 * pi - y)"
    by (simp add: y_def)
  then have c: "cos (2 * Math_PI) = cos y"
    by (simp only: cos_2pi_minus)
  have "y\<^sup>2 \<le> (1 / 2 ^ 51)\<^sup>2"
    using y by (intro power_mono) simp_all
  then have "1 - 1 / 2 ^ 60 \<le> 1 - y\<^sup>2 / 2"
    by (simp add: power_divide)
  with cos_near_one [of y] have "1 - 1 / 2 ^ 60 \<le> cos (2 * Math_PI)"
    unfolding c by simp
  then have "fl (1 - 1 / 2 ^ 60) \<le> fl (cos (2 * Math_PI))"
    by (rule fl_mono)
  then have "1 \<le> fl (cos (2 * Math_PI))"
    by (simp add: fl_near_one)
  moreover have "fl (cos (2 * Math_PI)) \<le> fl 1"
    by (rule fl_mono) simp
  ultimately show ?thesis
    by (simp add: Math_cos_def)
qed

lemma Math_cos_pi: "Math_cos Math_PI = - 1"
proof -
  define y where "y = pi - Math_PI"
  have y: "0 \<le> y" "y \<le> 1 / 2 ^ 52"
    using pi_lower pi_upper by (simp_all add: y_def)
  have "cos Math_PI = cos (pi - y)"
    by (simp add: y_def)
  then have c: "cos Math_PI = - cos y"
    by (simp only: cos_pi_minus)
  have "y\<^sup>2 \<le> (1 / 2 ^ 52)\<^sup>2"
    using y by (intro power_mono) simp_all
  then have "1 - 1 / 2 ^ 60 \<le> 1 - y\<^sup>2 / 2"
    by (simp add: power_divide)
  with cos_near_one [of y] have "1 - 1 / 2 ^ 60 \<le> cos y"
    by simp
  then have "fl (1 - 1 / 2 ^ 60) \<le> fl (cos y)"
    by (rule fl_mono)
  then have "1 \<le> fl (cos y)"
    by (simp add: fl_near_one)
  moreover have "fl (cos y) \<le> fl 1"
    by (rule fl_mono) simp
  ultimately have "fl (cos y) = 1"
    by simp
  then show ?thesis
    by (simp add: Math_cos_def c fl_minus)
qed

lemma cos_below_half_pi:
  "0 \<le> cos (Math_PI / 2)" "cos (Math_PI / 2) \<le> 1 / 2 ^ 53"
proof -
  define y where "y = pi / 2 - Math_PI / 2"
  have y: "0 \<le> y" "y \<le> 1 / 2 ^ 53"
    using pi_lower pi_upper by (simp_all add: y_def)
  have c: "cos (Math_PI / 2) = sin y"
    using cos_sin_eq [of "Math_PI / 2"] by (simp add: y_def)
  have "y \<le> pi"
    using y pi_ge_two by simp
  with y show "0 \<le> cos (Math_PI / 2)"
    unfolding c by (intro sin_ge_zero)
  from sin_x_le_x [OF y(1)] y(2) show "cos (Math_PI / 2) \<le> 1 / 2 ^ 53"
    unfolding c by simp
qed

lemma cos_above_half_pi: "cos (Math_PI / 2 + 1 / 2 ^ 51) \<le> - (1 / 2 ^ 52)"
proof -
  define x where "x = Math_PI / 2 + 1 / 2 ^ 51 - pi / 2"
  have x: "3 / 2 ^ 53 \<le> x" "x \<le> 1 / 2 ^ 51"
    using pi_lower pi_upper by (simp_all add: x_def)
  then have x0: "0 \<le> x" by simp
  have "cos (Math_PI / 2 + 1 / 2 ^ 51) = sin (pi / 2 - (Math_PI / 2 + 1 / 2 ^ 51))"
    using cos_sin_eq [of "Math_PI / 2 + 1 / 2 ^ 51"] by simp
  also have "pi / 2 - (Math_PI / 2 + 1 / 2 ^ 51) = - x"
    by (simp add: x_def)
  finally have c: "cos (Math_PI / 2 + 1 / 2 ^ 51) = - sin x"
    by simp
  have "x ^ 3 \<le> (1 / 2 ^ 51) ^ 3"
    using x0 x(2) by (intro power_mono) simp_all
  then have "x ^ 3 / 6 \<le> 1 / 2 ^ 53"
    by (simp add: power_divide)
  with sin_lower [OF x0] x(1) have "1 / 2 ^ 52 \<le> sin x"
    by simp
  then show ?thesis
    unfolding c by simp
qed



section \<open>The clock: theorems\<close>

lemma tick_playing:
  "isPlaying st \<Longrightarrow> tick ts tEnd st = animate ts tEnd st"
  by (simp add: tick_def)




lemma apply_op_in_range:
  assumes "tStart \<le> tEnd" "0 \<le> playbackSpeed st"
    and "seek_in_range tStart tEnd op"
    and "tStart \<le> currentTime st" "currentTime st \<le> tEnd"
  shows "tStart \<le> currentTime (apply_op tEnd st op)
         \<and> currentTime (apply_op tEnd st op) \<le> tEnd
         \<and> playbackSpeed (apply_op tEnd st op) = playbackSpeed st"
proof (cases op)
  case Play
  then show ?thesis using assms by (simp add: play_def togglePlay_def)
next
  case Pause
  then show ?thesis using assms by (simp add: pause_def togglePlay_def)
next
  case (Seek v)
  then show ?thesis using assms by (simp add: handleSliderChange_def)
next
  case (Tick ts)
  have "currentTime st \<le> currentTime st + 1000 * playbackSpeed st * (1 / 60)"
    using assms(2) by simp
  then show ?thesis using Tick assms
    by (auto simp add: tick_def animate_def Let_def)
qed

lemma run_ops_in_range:
  assumes "tStart \<le> tEnd" "0 \<le> playbackSpeed st"
    and "\<forall>op \<in> set ops. seek_in_range tStart tEnd op"
    and "tStart \<le> currentTime st" "currentTime st \<le> tEnd"
  shows "tStart \<le> currentTime (run_ops tEnd st ops)
         \<and> currentTime (run_ops tEnd st ops) \<le> tEnd"
  using assms
proof (induction ops arbitrary: st)
  case Nil
  then show ?case by (simp add: run_ops_def)
next
  case (Cons op ops)
  have step: "tStart \<le> currentTime (apply_op tEnd st op)
         \<and> currentTime (apply_op tEnd st op) \<le> tEnd
         \<and> playbackSpeed (apply_op tEnd st op) = playbackSpeed st"
    using apply_op_in_range [of tStart tEnd st op] Cons.prems by simp
  have "tStart \<le> currentTime (run_ops tEnd (apply_op tEnd st op) ops)
         \<and> currentTime (run_ops tEnd (apply_op tEnd st op) ops) \<le> tEnd"
    using Cons.IH [of "apply_op tEnd st op"] Cons.prems step by simp
  then show ?case by (simp add: run_ops_def)
qed

text \<open>
  C2, as the specification states it, fails: \<open>handleSliderChange\<close> stores the value it is
  given, so a seek beyond \<open>endTime\<close> leaves \<open>currentTime\<close> beyond \<open>endTime\<close>.
\<close>

theorem seek_unclamped_counterexample:
  "\<not> (currentTime (run_ops 10 (initialState 0) [Seek 11]) \<le> 10)"
  by (simp add: run_ops_def initialState_def handleSliderChange_def)

text \<open>
  C2 (amended): for every timeline with \<open>startTime \<le> endTime\<close>, after any finite sequence
  of play, pause, seek and tick operations from the initial state, where every seek value
  lies in \<open>[startTime, endTime]\<close> (the bounds of the slider), the invariant
  \<open>startTime \<le> currentTime \<le> endTime\<close> holds.
\<close>

theorem clock_invariant:
  assumes "tStart \<le> tEnd"
    and "\<forall>op \<in> set ops. seek_in_range tStart tEnd op"
  shows "tStart \<le> currentTime (run_ops tEnd (initialState tStart) ops)
         \<and> currentTime (run_ops tEnd (initialState tStart) ops) \<le> tEnd"
  using run_ops_in_range [of tStart tEnd "initialState tStart" ops] assms
  by (simp add: initialState_def)

theorem clock_invariant_witness:
  "(0::real) \<le> 10000
   \<and> seek_in_range 0 10000 (Seek 9000)
   \<and> currentTime (run_ops 10000 (initialState 0) [Play, Tick 0, Seek 9000, Tick 16, Pause])
       = 10000"
  using clock_invariant [of 0 10000 "[Play, Tick 0, Seek 9000, Tick 16, Pause]"]
  by (simp add: run_ops_def initialState_def play_def pause_def togglePlay_def
      handleSliderChange_def tick_def animate_def)

section \<open>The position marker: theorems\<close>

lemma findIndex_ge: "- 1 \<le> findIndex p xs"
  by (induction xs) (auto simp: Let_def)

lemma findIndex_none: "(findIndex p xs < 0) = (\<forall>x \<in> set xs. \<not> p x)"
  using findIndex_ge [of p]
  by (induction xs) (auto simp: Let_def)

lemma findIndex_first:
  assumes "0 \<le> findIndex p xs"
  shows "nat (findIndex p xs) < length xs \<and> p (xs ! nat (findIndex p xs))
         \<and> (\<forall>j < nat (findIndex p xs). \<not> p (xs ! j))"
  using assms
proof (induction xs)
  case Nil
  then show ?case by simp
next
  case (Cons x xs)
  show ?case
  proof (cases "p x")
    case True
    then show ?thesis by simp
  next
    case False
    with Cons.prems have nn: "0 \<le> findIndex p xs"
      by (auto simp: Let_def split: if_splits)
    with False have eq: "findIndex p (x # xs) = findIndex p xs + 1"
      by (simp add: Let_def)
    have n: "nat (findIndex p xs + 1) = Suc (nat (findIndex p xs))"
      using nn by simp
    from Cons.IH [OF nn] False show ?thesis
      unfolding eq n by (auto simp: less_Suc_eq_0_disj)
  qed
qed

text \<open>
  C4: for every non-empty track and every time \<open>t\<close>, the lookup returns the first point
  whose time stamp is \<open>\<ge> t\<close> (no earlier point has one), and the last point when no
  point has one. On the track with time stamps 0 and 3,600,000 the lookup at 1,800,000
  gives the second point (the witness).
\<close>

theorem currentPoint_first_at_or_after:
  assumes "points \<noteq> []"
  shows "if \<exists>p \<in> set points. js_ge (timestamp p) t
         then \<exists>i < length points.
                currentPoint points t = Some (points ! i)
                \<and> js_ge (timestamp (points ! i)) t
                \<and> (\<forall>j < i. \<not> js_ge (timestamp (points ! j)) t)
         else currentPoint points t = Some (last points)"
proof (cases "\<exists>p \<in> set points. js_ge (timestamp p) t")
  case True
  let ?q = "\<lambda>p. js_ge (timestamp p) t"
  from True have nn: "0 \<le> findIndex ?q points"
    using findIndex_none [of ?q points] by auto
  from findIndex_first [OF nn] have
    "nat (findIndex ?q points) < length points"
    "?q (points ! nat (findIndex ?q points))"
    "\<forall>j < nat (findIndex ?q points). \<not> ?q (points ! j)" by auto
  moreover have "currentPoint points t = Some (points ! nat (findIndex ?q points))"
    using nn \<open>nat (findIndex ?q points) < length points\<close>
    by (simp add: currentPoint_def js_index_def Let_def)
  ultimately show ?thesis using True by auto
next
  case False
  let ?q = "\<lambda>p. js_ge (timestamp p) t"
  from False have "findIndex ?q points < 0"
    using findIndex_none [of ?q points] by auto
  then have "currentPoint points t = js_index points (int (length points) - 1)"
    by (simp add: currentPoint_def Let_def)
  also have "\<dots> = Some (last points)"
  proof -
    have "nat (int (length points) - 1) = length points - 1" by simp
    then show ?thesis
      using assms by (simp add: js_index_def last_conv_nth del: One_nat_def)
  qed
  finally show ?thesis using False by simp
qed

theorem currentPoint_first_at_or_after_witness:
  "[\<lparr>longitude = 4.27, latitude = 52.11, timestamp = Fin 0, elevation = 0\<rparr>,
    \<lparr>longitude = 4.30, latitude = 52.12, timestamp = Fin 3600000, elevation = 0\<rparr>] \<noteq> []
   \<and> currentPoint
        [\<lparr>longitude = 4.27, latitude = 52.11, timestamp = Fin 0, elevation = 0\<rparr>,
         \<lparr>longitude = 4.30, latitude = 52.12, timestamp = Fin 3600000, elevation = 0\<rparr>]
        (Fin 1800000)
       = Some \<lparr>longitude = 4.30, latitude = 52.12, timestamp = Fin 3600000, elevation = 0\<rparr>"
  using currentPoint_first_at_or_after
    [of "[\<lparr>longitude = 4.27, latitude = 52.11, timestamp = Fin 0, elevation = 0\<rparr>,
         \<lparr>longitude = 4.30, latitude = 52.12, timestamp = Fin 3600000, elevation = 0\<rparr>]"
        "Fin 1800000"]
  by (simp add: currentPoint_def js_index_def js_ge_def Let_def)


section \<open>Track loading: theorems\<close>

lemma foldl_pushPoint:
  "foldl (pushPoint g ts) acc xs = acc @ concat (map (pushPoint g ts []) xs)"
proof (induction xs arbitrary: acc)
  case Nil
  then show ?case by simp
next
  case (Cons x xs)
  have "pushPoint g ts acc x = acc @ pushPoint g ts [] x"
    by (simp add: pushPoint_def split: option.splits)
  then show ?case using Cons.IH by simp
qed

lemma zip_upt_nth: "zip xs [0 ..< length xs] = map (\<lambda>i. (xs ! i, i)) [0 ..< length xs]"
  by (rule nth_equalityI) simp_all

lemma concat_map_filter:
  "concat (map (\<lambda>i. if q i then [h i] else []) is) = map h (filter q is)"
  by (induction "is") simp_all

lemma pushPoint_loop:
  "foldl (pushPoint g ts) [] (zip coords [0 ..< length coords]) = pointsWithTime g coords ts"
proof -
  have "(\<lambda>i. pushPoint g ts [] (coords ! i, i))
        = (\<lambda>i. if hasTime ts i then [toTrackPoint g (coords ! i) (the (timeStrAt ts i))] else [])"
    by (rule ext) (simp add: pushPoint_def hasTime_def split: option.splits)
  then show ?thesis
    unfolding foldl_pushPoint zip_upt_nth pointsWithTime_def
    by (simp add: comp_def concat_map_filter)
qed

lemma filter_less_upt: "k \<le> n \<Longrightarrow> filter (\<lambda>i. i < k) [0 ..< n] = [0 ..< k]"
proof -
  assume "k \<le> n"
  then have "[0 ..< n] = [0 ..< k] @ [k ..< n]"
    by (metis le_add_diff_inverse upt_add_eq_append zero_le)
  then show ?thesis by simp
qed

lemma timeStrAt_present:
  "timeStrAt (map Some timeStrs) i = (if i < length timeStrs then Some (timeStrs ! i) else None)"
  by (simp add: timeStrAt_def js_index_def)

lemma pointsWithTime_compacted:
  assumes "\<forall>s \<in> set timeStrs. s \<noteq> []" and "length timeStrs \<le> length coords"
  shows "pointsWithTime g coords (map Some timeStrs)
         = map (\<lambda>(c, s). toTrackPoint g c s) (zip coords timeStrs)"
proof -
  have "hasTime (map Some timeStrs) = (\<lambda>i. i < length timeStrs)"
    using assms(1) by (intro ext) (simp add: hasTime_def timeStrAt_present)
  then have "pointsWithTime g coords (map Some timeStrs)
             = map (\<lambda>i. toTrackPoint g (coords ! i) (the (timeStrAt (map Some timeStrs) i)))
                 [0 ..< length timeStrs]"
    using assms(2) by (simp add: pointsWithTime_def filter_less_upt)
  also have "\<dots> = map (\<lambda>(c, s). toTrackPoint g c s) (zip coords timeStrs)"
    using assms(2) by (intro nth_equalityI) (simp_all add: timeStrAt_present)
  finally show ?thesis .
qed

lemma parseGPX_compacted:
  assumes "find isLineString features = Some f"
    and "geometry f = LineString coords"
    and "(case coordTimes f of None \<Rightarrow> [] | Some ts \<Rightarrow> ts) = map Some timeStrs"
    and "\<forall>s \<in> set timeStrs. s \<noteq> []"
    and "length timeStrs \<le> length coords"
  shows "trackPoints (parseGPX getTime features)
         = map (\<lambda>(c, s). toTrackPoint getTime c s) (zip coords timeStrs)"
  using assms(1,2,3)
  by (simp add: parseGPX_def Let_def pushPoint_loop pointsWithTime_compacted [OF assms(4,5)])

lemma parseGPX_fields:
  "parseGPX getTime features
   = \<lparr>geojson = features, trackPoints = trackPoints (parseGPX getTime features),
      startTime = (if trackPoints (parseGPX getTime features) = [] then Fin 0
                   else timestamp (hd (trackPoints (parseGPX getTime features)))),
      endTime = (if trackPoints (parseGPX getTime features) = [] then Fin 0
                 else timestamp (last (trackPoints (parseGPX getTime features))))\<rparr>"
  by (simp add: parseGPX_def Let_def hd_conv_nth last_conv_nth)

text \<open>
  Positions and time stamps are paired by index: of three positions with two time stamps
  the first two are loaded, whichever point has no time stamp in the GPX file.
\<close>

lemma parseGPX_pairs_by_index:
  "trackPoints (parseGPX example_getTime
     [\<lparr>geometry = LineString [(4.27, 52.11, None), (4.28, 52.115, None), (4.30, 52.12, Some 3)],
       coordTimes = Some [Some ''2024-06-01T10:00:00Z'', Some ''2024-06-01T11:00:00Z'']\<rparr>])
   = [\<lparr>longitude = 4.27, latitude = 52.11, timestamp = Fin 1717236000000, elevation = 0\<rparr>,
      \<lparr>longitude = 4.28, latitude = 52.115, timestamp = Fin 1717239600000, elevation = 0\<rparr>]"
  by (simp add: parseGPX_def pushPoint_def timeStrAt_def js_index_def toTrackPoint_def
      example_getTime_def upt_rec)

text \<open>
  C8, as claimed: a point with a malformed time stamp is dropped. In a track of two
  points whose second time stamp is no date, both points are loaded, the second with the
  time stamp NaN, which is also the end time; and what the loader returns has no count
  of dropped points.
\<close>

theorem parseGPX_malformed_kept_counterexample:
  "parseGPX example_getTime
      [\<lparr>geometry = LineString [(4.27, 52.11, None), (4.30, 52.12, None)],
        coordTimes = Some [Some ''2024-06-01T10:00:00Z'', Some ''not-a-time'']\<rparr>]
   = \<lparr>geojson = [\<lparr>geometry = LineString [(4.27, 52.11, None), (4.30, 52.12, None)],
                   coordTimes = Some [Some ''2024-06-01T10:00:00Z'', Some ''not-a-time'']\<rparr>],
      trackPoints =
        [\<lparr>longitude = 4.27, latitude = 52.11, timestamp = Fin 1717236000000, elevation = 0\<rparr>,
         \<lparr>longitude = 4.30, latitude = 52.12, timestamp = NaN, elevation = 0\<rparr>],
      startTime = Fin 1717236000000, endTime = NaN\<rparr>"
  by (simp add: parseGPX_def pushPoint_def timeStrAt_def js_index_def toTrackPoint_def
      example_getTime_def upt_rec)

text \<open>
  C8 (amended). The array \<open>coordTimes\<close> that the GPX reader returns holds the time
  stamps that are present, in order, with no entry for a point without one; there are
  at most as many as points. On such a track the loader returns one point for each time
  stamp present, with these time stamps in order (a string that is no date gives NaN and
  the point is kept), so as many points are missing as time stamps are. It returns the
  GeoJSON, these points and the time stamps of the first and of the last of them (0 for
  none), and nothing else: no count of dropped points.
\<close>

theorem parseGPX_one_point_per_timestamp:
  assumes "find isLineString features = Some f"
    and "geometry f = LineString coords"
    and "(case coordTimes f of None \<Rightarrow> [] | Some ts \<Rightarrow> ts) = map Some timeStrs"
    and "\<forall>s \<in> set timeStrs. s \<noteq> []"
    and "length timeStrs \<le> length coords"
  shows "parseGPX getTime features
         = \<lparr>geojson = features, trackPoints = trackPoints (parseGPX getTime features),
            startTime = (if timeStrs = [] then Fin 0 else getTime (hd timeStrs)),
            endTime = (if timeStrs = [] then Fin 0 else getTime (last timeStrs))\<rparr>
         \<and> length (trackPoints (parseGPX getTime features)) = length timeStrs
         \<and> map timestamp (trackPoints (parseGPX getTime features)) = map getTime timeStrs"
proof -
  let ?ps = "trackPoints (parseGPX getTime features)"
  have ps: "?ps = map (\<lambda>(c, s). toTrackPoint getTime c s) (zip coords timeStrs)"
    by (rule parseGPX_compacted [OF assms])
  have len: "length ?ps = length timeStrs"
    using assms(5) by (simp add: ps)
  have ts: "map timestamp ?ps = map getTime timeStrs"
    using assms(5) unfolding ps
    by (intro nth_equalityI) (simp_all add: toTrackPoint_def)
  have e: "?ps = [] \<longleftrightarrow> timeStrs = []"
    using len by (metis length_0_conv)
  have h: "timestamp (hd ?ps) = getTime (hd timeStrs)" if "timeStrs \<noteq> []"
    using that e ts by (metis hd_map)
  have l: "timestamp (last ?ps) = getTime (last timeStrs)" if "timeStrs \<noteq> []"
    using that e ts by (metis last_map)
  have "parseGPX getTime features
         = \<lparr>geojson = features, trackPoints = ?ps,
            startTime = (if timeStrs = [] then Fin 0 else getTime (hd timeStrs)),
            endTime = (if timeStrs = [] then Fin 0 else getTime (last timeStrs))\<rparr>"
    using parseGPX_fields [of getTime features] e h l by (cases "timeStrs = []") simp_all
  with len ts show ?thesis by blast
qed

theorem parseGPX_one_point_per_timestamp_witness:
  "find isLineString
     [\<lparr>geometry = OtherGeometry, coordTimes = None\<rparr>,
      \<lparr>geometry = LineString [(4.27, 52.11, None), (4.28, 52.115, None), (4.30, 52.12, Some 3)],
       coordTimes = Some [Some ''2024-06-01T10:00:00Z'', Some ''2024-06-01T11:00:00Z'']\<rparr>]
     = Some \<lparr>geometry = LineString [(4.27, 52.11, None), (4.28, 52.115, None), (4.30, 52.12, Some 3)],
       coordTimes = Some [Some ''2024-06-01T10:00:00Z'', Some ''2024-06-01T11:00:00Z'']\<rparr>
   \<and> ''2024-06-01T10:00:00Z'' \<noteq> [] \<and> ''2024-06-01T11:00:00Z'' \<noteq> []
   \<and> length [''2024-06-01T10:00:00Z'', ''2024-06-01T11:00:00Z'']
       \<le> length [(4.27 :: real, 52.11 :: real, None :: real option), (4.28, 52.115, None),
                   (4.30, 52.12, Some 3)]
   \<and> length (trackPoints (parseGPX example_getTime
     [\<lparr>geometry = OtherGeometry, coordTimes = None\<rparr>,
      \<lparr>geometry = LineString [(4.27, 52.11, None), (4.28, 52.115, None), (4.30, 52.12, Some 3)],
       coordTimes = Some [Some ''2024-06-01T10:00:00Z'', Some ''2024-06-01T11:00:00Z'']\<rparr>]))
     = 2
   \<and> map timestamp (trackPoints (parseGPX example_getTime
     [\<lparr>geometry = OtherGeometry, coordTimes = None\<rparr>,
      \<lparr>geometry = LineString [(4.27, 52.11, None), (4.28, 52.115, None), (4.30, 52.12, Some 3)],
       coordTimes = Some [Some ''2024-06-01T10:00:00Z'', Some ''2024-06-01T11:00:00Z'']\<rparr>]))
     = [Fin 1717236000000, Fin 1717239600000]
   \<and> startTime (parseGPX example_getTime
     [\<lparr>geometry = OtherGeometry, coordTimes = None\<rparr>,
      \<lparr>geometry = LineString [(4.27, 52.11, None), (4.28, 52.115, None), (4.30, 52.12, Some 3)],
       coordTimes = Some [Some ''2024-06-01T10:00:00Z'', Some ''2024-06-01T11:00:00Z'']\<rparr>])
     = Fin 1717236000000
   \<and> endTime (parseGPX example_getTime
     [\<lparr>geometry = OtherGeometry, coordTimes = None\<rparr>,
      \<lparr>geometry = LineString [(4.27, 52.11, None), (4.28, 52.115, None), (4.30, 52.12, Some 3)],
       coordTimes = Some [Some ''2024-06-01T10:00:00Z'', Some ''2024-06-01T11:00:00Z'']\<rparr>])
     = Fin 1717239600000"
proof -
  let ?f = "\<lparr>geometry = LineString [(4.27, 52.11, None), (4.28, 52.115, None), (4.30, 52.12, Some 3)],
       coordTimes = Some [Some ''2024-06-01T10:00:00Z'', Some ''2024-06-01T11:00:00Z'']\<rparr>"
  let ?fs = "[\<lparr>geometry = OtherGeometry, coordTimes = None\<rparr>, ?f]"
  have a: "find isLineString ?fs = Some ?f"
    by simp
  note t = parseGPX_one_point_per_timestamp
    [of ?fs ?f "[(4.27, 52.11, None), (4.28, 52.115, None), (4.30, 52.12, Some 3)]"
        "[''2024-06-01T10:00:00Z'', ''2024-06-01T11:00:00Z'']" example_getTime, OF a]
  have b: "parseGPX example_getTime ?fs
         = \<lparr>geojson = ?fs, trackPoints = trackPoints (parseGPX example_getTime ?fs),
            startTime = Fin 1717236000000, endTime = Fin 1717239600000\<rparr>
      \<and> length (trackPoints (parseGPX example_getTime ?fs)) = 2
      \<and> map timestamp (trackPoints (parseGPX example_getTime ?fs))
          = [Fin 1717236000000, Fin 1717239600000]"
    using t by (simp add: example_getTime_def)
  then have "startTime (parseGPX example_getTime ?fs) = Fin 1717236000000"
    and "endTime (parseGPX example_getTime ?fs) = Fin 1717239600000"
    by (metis RaceData.select_convs(3), metis RaceData.select_convs(4))
  with a b show ?thesis by simp
qed

text \<open>
  C9: for an empty track the loader returns \<open>startTime = endTime = 0\<close>, the lookup
  returns no point and there is no marker layer.
\<close>

theorem empty_track_defined:
  assumes "trackPoints (parseGPX getTime features) = []"
  shows "startTime (parseGPX getTime features) = Fin 0
         \<and> endTime (parseGPX getTime features) = Fin 0
         \<and> currentPoint (trackPoints (parseGPX getTime features)) t = None
         \<and> markerLayer (trackPoints (parseGPX getTime features)) t = None"
proof -
  have "currentPoint [] t = None"
    by (simp add: currentPoint_def js_index_def)
  then have "currentPoint [] t = None \<and> markerLayer [] t = None"
    by (simp add: markerLayer_def)
  moreover have "startTime (parseGPX getTime features) = Fin 0
         \<and> endTime (parseGPX getTime features) = Fin 0"
    using assms by (simp add: parseGPX_def Let_def)
  ultimately show ?thesis using assms by simp
qed

theorem empty_track_defined_witness:
  "trackPoints (parseGPX example_getTime
      [\<lparr>geometry = LineString [(4.27, 52.11, None)], coordTimes = None\<rparr>]) = []
   \<and> startTime (parseGPX example_getTime
      [\<lparr>geometry = LineString [(4.27, 52.11, None)], coordTimes = None\<rparr>]) = Fin 0
   \<and> endTime (parseGPX example_getTime
      [\<lparr>geometry = LineString [(4.27, 52.11, None)], coordTimes = None\<rparr>]) = Fin 0
   \<and> markerLayer (trackPoints (parseGPX example_getTime
      [\<lparr>geometry = LineString [(4.27, 52.11, None)], coordTimes = None\<rparr>])) (Fin 0) = None"
  using empty_track_defined
    [of example_getTime "[\<lparr>geometry = LineString [(4.27, 52.11, None)], coordTimes = None\<rparr>]"
        "Fin 0"]
  by (simp add: parseGPX_def pushPoint_def timeStrAt_def js_index_def)


section \<open>The colour ramp: theorems\<close>

lemma getColor_slow: "getColor 0 = slowColor"
  by (simp add: getColor_def slowColor_def MAX_CURRENT_SPEED_def)

lemma getColor_fast: "MAX_CURRENT_SPEED \<le> s \<Longrightarrow> getColor s = fastColor"
  by (simp add: getColor_def fastColor_def MAX_CURRENT_SPEED_def min_def)

lemma getColor_mid: "getColor (MAX_CURRENT_SPEED / 2) = midColor"
  by (simp add: getColor_def midColor_def MAX_CURRENT_SPEED_def)

lemma getColor_ramp: "0 \<le> s \<Longrightarrow> getColor s = spec_colorRamp s"
  by (auto simp add: getColor_def spec_colorRamp_def MAX_CURRENT_SPEED_def Let_def
      slowColor_def midColor_def fastColor_def lerp_def min_def max_def)

text \<open>
  C7: the colour ramp maps speed 0 to the "slow" colour, every speed from the maximum
  (1.5 m/s) on to the "fast" colour and half the maximum to the "mid" colour, and on
  every speed that is not negative it is the ramp of the specification: each channel
  linear over \<open>[0, 0.5]\<close> and over \<open>(0.5, 1]\<close> of the clamped normalised speed.
\<close>

theorem getColor_endpoints_and_ramp:
  "getColor 0 = slowColor
   \<and> (MAX_CURRENT_SPEED \<le> s \<longrightarrow> getColor s = fastColor)
   \<and> getColor (MAX_CURRENT_SPEED / 2) = midColor
   \<and> (0 \<le> s \<longrightarrow> getColor s = spec_colorRamp s)"
  using getColor_slow getColor_fast [of s] getColor_mid getColor_ramp [of s]
  by blast

theorem getColor_endpoints_and_ramp_witness:
  "(MAX_CURRENT_SPEED \<le> 2 \<and> getColor 2 = (255, 0, 200))
   \<and> ((0::real) \<le> 0.375 \<and> getColor 0.375 = (59, 43, 136.5))
   \<and> ((0::real) \<le> 1.125 \<and> getColor 1.125 = (171.5, 14, 167.5))"
proof -
  have "MAX_CURRENT_SPEED \<le> 2"
    by (simp add: MAX_CURRENT_SPEED_def)
  then have a: "getColor 2 = fastColor"
    using getColor_endpoints_and_ramp [of 2] by blast
  have b: "getColor 0.375 = spec_colorRamp 0.375"
    using getColor_endpoints_and_ramp [of "0.375"] by simp
  have c: "getColor 1.125 = spec_colorRamp 1.125"
    using getColor_endpoints_and_ramp [of "1.125"] by simp
  have "spec_colorRamp 0.375 = (59, 43, 136.5)"
    by (simp add: spec_colorRamp_def MAX_CURRENT_SPEED_def slowColor_def midColor_def lerp_def)
  moreover have "spec_colorRamp 1.125 = (171.5, 14, 167.5)"
    by (simp add: spec_colorRamp_def MAX_CURRENT_SPEED_def midColor_def fastColor_def lerp_def)
  ultimately show ?thesis
    using a b c by (simp add: fastColor_def MAX_CURRENT_SPEED_def)
qed


section \<open>Stepping loops: lemmas\<close>

lemma forLoop_partial_induct:
  assumes "forLoop body x hi stp s = Some y"
    and "\<And>rec body x hi stp s y.
           (\<And>body x hi stp s y. rec body x hi stp s = Some y \<Longrightarrow> P body x hi stp s y) \<Longrightarrow>
           (if js_le x hi then Option.bind (body x s) (rec body (js_add x stp) hi stp)
            else Some s) = Some y \<Longrightarrow>
           P body x hi stp s y"
  shows "P body x hi stp s y"
proof -
  note r = forLoop.raw_induct [of P "((((body, x), hi), stp), s)" y, unfolded prod.case]
  show ?thesis
    by (rule r) (fact assms(2), fact assms(1))
qed

lemma forLoop_invariant:
  assumes step: "\<And>x s s'. I s \<Longrightarrow> body x s = Some s' \<Longrightarrow> I s'"
    and run: "forLoop body x hi stp s = Some s'"
    and init: "I s"
  shows "I s'"
proof -
  have "body = body \<longrightarrow> I s \<longrightarrow> I s'"
  proof (rule forLoop_partial_induct
      [OF run, where P = "\<lambda>b x hi stp s s'. b = body \<longrightarrow> I s \<longrightarrow> I s'"])
    fix rec b x hi stp s s'
    assume ih: "\<And>body' x hi stp s y. rec body' x hi stp s = Some y
                  \<Longrightarrow> body' = body \<longrightarrow> I s \<longrightarrow> I y"
      and eq: "(if js_le x hi then Option.bind (b x s) (rec b (js_add x stp) hi stp)
                else Some s) = Some s'"
    show "b = body \<longrightarrow> I s \<longrightarrow> I s'"
    proof (intro impI)
      assume b: "b = body" and i: "I s"
      show "I s'"
      proof (cases "js_le x hi")
        case True
        with eq obtain s1 where b1: "b x s = Some s1"
          and r: "rec b (js_add x stp) hi stp s1 = Some s'"
          by (auto simp: bind_eq_Some_conv)
        from step [OF i] b1 b have "I s1" by simp
        with ih [OF r] b show ?thesis by simp
      next
        case False
        with eq i show ?thesis by simp
      qed
    qed
  qed
  with init show ?thesis by simp
qed

lemma forLoop_stop:
  "\<not> js_le x hi \<Longrightarrow> forLoop body x hi stp s = Some s"
  by (subst forLoop.simps) simp

lemma forLoop_step:
  "js_le x hi \<Longrightarrow>
     forLoop body x hi stp s = Option.bind (body x s) (forLoop body (js_add x stp) hi stp)"
  by (subst forLoop.simps) simp

lemma forLoop_once:
  assumes "js_le x hi" "\<not> js_le (js_add x stp) hi"
  shows "forLoop body x hi stp s = body x s"
proof -
  have "forLoop body (js_add x stp) hi stp = Some"
    using assms(2) by (intro ext) (simp add: forLoop_stop)
  then show ?thesis
    using assms(1) by (simp add: forLoop_step)
qed

text \<open>
  A loop whose step is not positive does not return once it is entered: its variable
  never exceeds the bound.
\<close>

lemma js_add_nonpos_step:
  assumes "stp \<le> 0" "a \<le> hi" "isDouble hi"
  shows "js_add (Fin a) (Fin stp) = NegInf
         \<or> (\<exists>b. js_add (Fin a) (Fin stp) = Fin b \<and> b \<le> hi)"
proof -
  have le: "fl (a + stp) \<le> hi"
    using fl_mono [of "a + stp" hi] assms by (simp add: isDouble_def)
  show ?thesis
  proof (cases "pow2 1024 \<le> \<bar>fl (a + stp)\<bar>")
    case False
    then show ?thesis using le by (simp add: js_round_def)
  next
    case True
    have "\<not> 0 < a + stp"
    proof
      assume "0 < a + stp"
      then have "0 \<le> fl (a + stp)" by (intro fl_nonneg) simp
      with True le assms(3) show False by (simp add: isDouble_def)
    qed
    with True show ?thesis by (simp add: js_round_def)
  qed
qed

lemma forLoop_diverges:
  assumes "stp \<le> 0" "lo \<le> hi" "isDouble hi"
  shows "forLoop body (Fin lo) (Fin hi) (Fin stp) s = None"
proof (rule ccontr)
  let ?inside = "\<lambda>x. x = NegInf \<or> (\<exists>a. x = Fin a \<and> a \<le> hi)"
  assume "forLoop body (Fin lo) (Fin hi) (Fin stp) s \<noteq> None"
  then obtain y where run: "forLoop body (Fin lo) (Fin hi) (Fin stp) s = Some y" by auto
  have "?inside (Fin lo) \<longrightarrow> Fin hi = Fin hi \<longrightarrow> Fin stp = Fin stp \<longrightarrow> False"
  proof (rule forLoop_partial_induct
      [OF run, where P = "\<lambda>b x h st s y. ?inside x \<longrightarrow> h = Fin hi \<longrightarrow> st = Fin stp \<longrightarrow> False"])
    fix rec b x h st s y
    assume ih: "\<And>body' x h st s y. rec body' x h st s = Some y
                  \<Longrightarrow> ?inside x \<longrightarrow> h = Fin hi \<longrightarrow> st = Fin stp \<longrightarrow> False"
      and eq: "(if js_le x h then Option.bind (b x s) (rec b (js_add x st) h st)
                else Some s) = Some y"
    show "?inside x \<longrightarrow> h = Fin hi \<longrightarrow> st = Fin stp \<longrightarrow> False"
    proof (intro impI)
      assume x: "?inside x" and h: "h = Fin hi" and st: "st = Fin stp"
      from x h have le: "js_le x h" by auto
      with eq obtain s1 where r: "rec b (js_add x st) h st s1 = Some y"
        by (auto simp: bind_eq_Some_conv)
      have ins: "?inside (js_add x st)"
      proof (cases "x = NegInf")
        case True
        then show ?thesis by (simp add: st)
      next
        case False
        with x obtain a where a: "x = Fin a" "a \<le> hi" by auto
        show ?thesis
          unfolding a(1) st by (rule js_add_nonpos_step [OF assms(1) a(2) assms(3)])
      qed
      from ih [OF r] ins h st show False by blast
    qed
  qed
  with assms(2) show False by simp
qed

text \<open>A loop that pushes one element at each turn extends the list it is given.\<close>

lemma forLoop_push_prefix:
  assumes "forLoop (\<lambda>x lines. Some (lines @ [h x])) x hi stp s = Some s'"
  shows "\<exists>ys. s' = s @ ys"
proof (rule forLoop_invariant [where I = "\<lambda>l. \<exists>ys. l = s @ ys", OF _ assms])
  show "\<exists>ys. s = s @ ys" by simp
next
  fix x s1 s2
  assume "\<exists>ys. s1 = s @ ys" and "Some (s1 @ [h x]) = Some s2"
  then show "\<exists>ys. s2 = s @ ys" by auto
qed

lemma forLoop_push_first:
  assumes "js_le x hi"
    and "forLoop (\<lambda>x lines. Some (lines @ [h x])) x hi stp s = Some s'"
  shows "\<exists>ys. s' = s @ h x # ys"
proof -
  from assms have "forLoop (\<lambda>x lines. Some (lines @ [h x])) (js_add x stp) hi stp (s @ [h x])
                   = Some s'"
    by (simp add: forLoop_step)
  from forLoop_push_prefix [OF this] show ?thesis by auto
qed


section \<open>Reference grid: theorems\<close>

lemma latSpacing_nonpos: "spacingNm \<le> 0 \<Longrightarrow> latSpacing spacingNm \<le> 0"
  using fl_mono [of "spacingNm / 60" 0] by (simp add: latSpacing_def)

lemma generateGrid_inverted:
  assumes "maxLon < minLon" "maxLat < minLat"
  shows "generateGrid (minLon, minLat, maxLon, maxLat) spacingNm = Some []"
  using assms by (simp add: generateGrid_def forLoop_stop)

lemma generateGrid_no_progress:
  assumes "spacingNm \<le> 0" "minLat \<le> maxLat" "isDouble maxLat"
  shows "generateGrid (minLon, minLat, maxLon, maxLat) spacingNm = None"
  by (simp add: generateGrid_def
      forLoop_diverges [OF latSpacing_nonpos [OF assms(1)] assms(2,3)])

lemma generateGrid_first_latitude:
  assumes "minLat \<le> maxLat"
    and "generateGrid (minLon, minLat, maxLon, maxLat) spacingNm = Some lines"
  shows "latitudeLine minLon maxLon (Fin minLat) \<in> set lines"
proof -
  from assms(2) obtain l1 where
    lat: "forLoop (\<lambda>lat lines. Some (lines @ [latitudeLine minLon maxLon lat]))
            (Fin minLat) (Fin maxLat) (Fin (latSpacing spacingNm)) [] = Some l1"
    and lon: "forLoop (\<lambda>lon lines. Some (lines @ [longitudeLine minLat maxLat lon]))
            (Fin minLon) (Fin maxLon) (lonSpacing (minLon, minLat, maxLon, maxLat) spacingNm) l1
          = Some lines"
    by (auto simp add: generateGrid_def bind_eq_Some_conv)
  from assms(1) have "js_le (Fin minLat) (Fin maxLat)" by simp
  from forLoop_push_first [OF this lat] obtain ys
    where "l1 = latitudeLine minLon maxLon (Fin minLat) # ys" by auto
  moreover from forLoop_push_prefix [OF lon] obtain zs where "lines = l1 @ zs" by auto
  ultimately show ?thesis by simp
qed

lemma generateGrid_first_longitude:
  assumes "minLon \<le> maxLon"
    and "generateGrid (minLon, minLat, maxLon, maxLat) spacingNm = Some lines"
  shows "longitudeLine minLat maxLat (Fin minLon) \<in> set lines"
proof -
  from assms(2) obtain l1 where
    lon: "forLoop (\<lambda>lon lines. Some (lines @ [longitudeLine minLat maxLat lon]))
            (Fin minLon) (Fin maxLon) (lonSpacing (minLon, minLat, maxLon, maxLat) spacingNm) l1
          = Some lines"
    by (auto simp add: generateGrid_def bind_eq_Some_conv)
  from assms(1) have "js_le (Fin minLon) (Fin maxLon)" by simp
  from forLoop_push_first [OF this lon] show ?thesis by auto
qed

lemma generateGrid_point_box:
  assumes "\<not> js_le (js_add (Fin lat) (Fin (latSpacing spacingNm))) (Fin lat)"
    and "\<not> js_le (js_add (Fin lon) (lonSpacing (lon, lat, lon, lat) spacingNm)) (Fin lon)"
  shows "generateGrid (lon, lat, lon, lat) spacingNm
         = Some [latitudeLine lon lon (Fin lat), longitudeLine lat lat (Fin lon)]"
  using assms by (simp add: generateGrid_def forLoop_once)

lemma generateGrid_latitude_only:
  assumes "minLat = maxLat" and "maxLon < minLon"
    and "\<not> js_le (js_add (Fin minLat) (Fin (latSpacing spacingNm))) (Fin maxLat)"
  shows "generateGrid (minLon, minLat, maxLon, maxLat) spacingNm
         = Some [latitudeLine minLon maxLon (Fin minLat)]"
  using assms by (simp add: generateGrid_def forLoop_once forLoop_stop)

lemma generateGrid_longitude_only:
  assumes "maxLat < minLat" and "minLon = maxLon"
    and "\<not> js_le (js_add (Fin minLon)
               (lonSpacing (minLon, minLat, maxLon, maxLat) spacingNm)) (Fin maxLon)"
  shows "generateGrid (minLon, minLat, maxLon, maxLat) spacingNm
         = Some [longitudeLine minLat maxLat (Fin minLon)]"
  using assms by (simp add: generateGrid_def forLoop_once forLoop_stop)

lemma lonSpacing_origin:
  "lonSpacing (0, 0, 0, 0) (fl (1 / 10)) = Fin (7686143364045647 / 4611686018427387904)"
  by (simp add: lonSpacing_def centerLatRad_def js_div_def js_round_def fl_tenth fl_tenth_60
      pow2_def)

lemma latSpacing_tenth:
  "latSpacing (fl (1 / 10)) = 7686143364045647 / 4611686018427387904"
  by (simp add: latSpacing_def fl_tenth fl_tenth_60)

lemma centerLatRad_180: "centerLatRad (0, 180, 0, 180) = Math_PI"
  by (simp add: centerLatRad_def Math_PI_def fl_deg fl_center_180)

lemma lonSpacing_180:
  "lonSpacing (0, 180, 0, 180) (fl (1 / 10))
   = Fin (- (7686143364045647 / 4611686018427387904))"
proof -
  have "fl (- (3602879701896397 / 2161727821137838080))
        = - (7686143364045647 / 4611686018427387904)"
    by (simp only: fl_minus fl_tenth_60)
  then show ?thesis
    by (simp add: lonSpacing_def centerLatRad_180 Math_cos_pi fl_minus js_div_def js_round_def
        fl_tenth pow2_def)
qed

lemma generateGrid_negative_step: "generateGrid (0, 180, 0, 180) (fl (1 / 10)) = None"
proof -
  have leave: "\<not> js_le (js_add (Fin 180) (Fin (latSpacing (fl (1 / 10))))) (Fin 180)"
    by (simp add: latSpacing_tenth js_round_def fl_lat_180 pow2_def)
  have lat: "forLoop (\<lambda>lat lines. Some (lines @ [latitudeLine 0 0 lat]))
               (Fin 180) (Fin 180) (Fin (latSpacing (fl (1 / 10)))) []
             = Some [latitudeLine 0 0 (Fin 180)]"
    by (simp add: forLoop_once [OF _ leave])
  have lon: "forLoop (\<lambda>lon lines. Some (lines @ [longitudeLine 180 180 lon]))
               (Fin 0) (Fin 0) (Fin (- (7686143364045647 / 4611686018427387904))) lines
             = None" for lines
    by (rule forLoop_diverges) simp_all
  show ?thesis
    by (simp add: generateGrid_def lat lonSpacing_180 lon)
qed

text \<open>
  C5, as claimed: a degenerate box gives an empty sequence, and no loop runs for ever.
  The box \<open>[0, 0, 0, 0]\<close> with the default spacing 0.1 gives two lines. For the box
  \<open>[0, 180, 0, 180]\<close> the centre latitude in radians is \<open>Math.PI\<close>, its cosine is -1,
  the divisor is -60 and the longitude step is negative: the loop over the longitudes
  never ends.
\<close>

theorem generateGrid_degenerate_counterexample:
  "generateGrid (0, 0, 0, 0) (fl (1 / 10))
     = Some [latitudeLine 0 0 (Fin 0), longitudeLine 0 0 (Fin 0)]
   \<and> generateGrid (0, 180, 0, 180) (fl (1 / 10)) = None"
proof -
  have "generateGrid (0, 0, 0, 0) (fl (1 / 10))
        = Some [latitudeLine 0 0 (Fin 0), longitudeLine 0 0 (Fin 0)]"
    by (rule generateGrid_point_box)
       (simp_all add: lonSpacing_origin latSpacing_tenth js_round_def fl_ls_idem pow2_def)
  with generateGrid_negative_step show ?thesis by simp
qed

text \<open>
  C5 (amended). A box inverted on both axes gives the empty sequence. Every other
  degenerate box keeps lines: whenever the sampler returns, an axis with \<open>min \<le> max\<close>
  has its line at \<open>min\<close> in the result; an axis with \<open>min = max\<close>, where one step
  from \<open>min\<close> leaves the box, gives exactly that one line, so that the result is two
  lines when the other axis is of this kind too and one line when the other axis is
  inverted. Neither the step nor the divisor is guarded: with a spacing that is not
  positive and \<open>minLat \<le> maxLat\<close> the sampler does not return, and for the box
  \<open>[0, 180, 0, 180]\<close> with the default spacing, where the divisor is negative, it does
  not return either.
\<close>

theorem generateGrid_degenerate:
  "(maxLon < minLon \<and> maxLat < minLat \<longrightarrow>
      generateGrid (minLon, minLat, maxLon, maxLat) spacingNm = Some [])
   \<and> (minLat \<le> maxLat
       \<and> generateGrid (minLon, minLat, maxLon, maxLat) spacingNm = Some lines \<longrightarrow>
         latitudeLine minLon maxLon (Fin minLat) \<in> set lines)
   \<and> (minLon \<le> maxLon
       \<and> generateGrid (minLon, minLat, maxLon, maxLat) spacingNm = Some lines \<longrightarrow>
         longitudeLine minLat maxLat (Fin minLon) \<in> set lines)
   \<and> (minLat = maxLat \<and> minLon = maxLon
       \<and> \<not> js_le (js_add (Fin minLat) (Fin (latSpacing spacingNm))) (Fin maxLat)
       \<and> \<not> js_le (js_add (Fin minLon)
                  (lonSpacing (minLon, minLat, maxLon, maxLat) spacingNm)) (Fin maxLon) \<longrightarrow>
         generateGrid (minLon, minLat, maxLon, maxLat) spacingNm
           = Some [latitudeLine minLon maxLon (Fin minLat),
                   longitudeLine minLat maxLat (Fin minLon)])
   \<and> (minLat = maxLat \<and> maxLon < minLon
       \<and> \<not> js_le (js_add (Fin minLat) (Fin (latSpacing spacingNm))) (Fin maxLat) \<longrightarrow>
         generateGrid (minLon, minLat, maxLon, maxLat) spacingNm
           = Some [latitudeLine minLon maxLon (Fin minLat)])
   \<and> (maxLat < minLat \<and> minLon = maxLon
       \<and> \<not> js_le (js_add (Fin minLon)
                  (lonSpacing (minLon, minLat, maxLon, maxLat) spacingNm)) (Fin maxLon) \<longrightarrow>
         generateGrid (minLon, minLat, maxLon, maxLat) spacingNm
           = Some [longitudeLine minLat maxLat (Fin minLon)])
   \<and> (spacingNm \<le> 0 \<and> minLat \<le> maxLat \<and> isDouble maxLat \<longrightarrow>
         generateGrid (minLon, minLat, maxLon, maxLat) spacingNm = None)
   \<and> generateGrid (0, 180, 0, 180) (fl 0.1) = None"
proof (intro conjI impI)
  assume "maxLon < minLon \<and> maxLat < minLat"
  then show "generateGrid (minLon, minLat, maxLon, maxLat) spacingNm = Some []"
    by (simp add: generateGrid_inverted)
next
  assume "minLat \<le> maxLat
          \<and> generateGrid (minLon, minLat, maxLon, maxLat) spacingNm = Some lines"
  then show "latitudeLine minLon maxLon (Fin minLat) \<in> set lines"
    using generateGrid_first_latitude by blast
next
  assume "minLon \<le> maxLon
          \<and> generateGrid (minLon, minLat, maxLon, maxLat) spacingNm = Some lines"
  then show "longitudeLine minLat maxLat (Fin minLon) \<in> set lines"
    using generateGrid_first_longitude by blast
next
  assume a: "minLat = maxLat \<and> minLon = maxLon
       \<and> \<not> js_le (js_add (Fin minLat) (Fin (latSpacing spacingNm))) (Fin maxLat)
       \<and> \<not> js_le (js_add (Fin minLon)
                  (lonSpacing (minLon, minLat, maxLon, maxLat) spacingNm)) (Fin maxLon)"
  then have e: "minLat = maxLat" "minLon = maxLon" by simp_all
  from a show "generateGrid (minLon, minLat, maxLon, maxLat) spacingNm
           = Some [latitudeLine minLon maxLon (Fin minLat),
                   longitudeLine minLat maxLat (Fin minLon)]"
    unfolding e by (intro generateGrid_point_box) simp_all
next
  assume "minLat = maxLat \<and> maxLon < minLon
       \<and> \<not> js_le (js_add (Fin minLat) (Fin (latSpacing spacingNm))) (Fin maxLat)"
  then show "generateGrid (minLon, minLat, maxLon, maxLat) spacingNm
           = Some [latitudeLine minLon maxLon (Fin minLat)]"
    by (intro generateGrid_latitude_only) auto
next
  assume "maxLat < minLat \<and> minLon = maxLon
       \<and> \<not> js_le (js_add (Fin minLon)
                  (lonSpacing (minLon, minLat, maxLon, maxLat) spacingNm)) (Fin maxLon)"
  then show "generateGrid (minLon, minLat, maxLon, maxLat) spacingNm
           = Some [longitudeLine minLat maxLat (Fin minLon)]"
    by (intro generateGrid_longitude_only) auto
next
  assume "spacingNm \<le> 0 \<and> minLat \<le> maxLat \<and> isDouble maxLat"
  then show "generateGrid (minLon, minLat, maxLon, maxLat) spacingNm = None"
    by (simp add: generateGrid_no_progress)
next
  show "generateGrid (0, 180, 0, 180) (fl 0.1) = None"
    using generateGrid_negative_step by simp
qed

theorem generateGrid_degenerate_witness:
  "((0::real) < 1 \<and> generateGrid (1, 1, 0, 0) 6 = Some [])
   \<and> (\<not> js_le (js_add (Fin 0) (Fin (latSpacing (fl 0.1)))) (Fin 0)
      \<and> \<not> js_le (js_add (Fin 0) (lonSpacing (0, 0, 0, 0) (fl 0.1))) (Fin 0)
      \<and> generateGrid (0, 0, 0, 0) (fl 0.1)
          = Some [latitudeLine 0 0 (Fin 0), longitudeLine 0 0 (Fin 0)]
      \<and> latitudeLine 0 0 (Fin 0) \<in> set [latitudeLine 0 0 (Fin 0), longitudeLine 0 0 (Fin 0)]
      \<and> longitudeLine 0 0 (Fin 0)
          \<in> set [latitudeLine 0 0 (Fin 0), longitudeLine 0 0 (Fin 0)])
   \<and> generateGrid (1, 0, 0, 0) (fl 0.1) = Some [latitudeLine 1 0 (Fin 0)]
   \<and> ((- 1 :: real) < 1
      \<and> \<not> js_le (js_add (Fin 0) (lonSpacing (0, 1, 0, - 1) (fl 0.1))) (Fin 0)
      \<and> generateGrid (0, 1, 0, - 1) (fl 0.1) = Some [longitudeLine 1 (- 1) (Fin 0)])
   \<and> ((0::real) \<le> 0 \<and> isDouble 0 \<and> generateGrid (0, 0, 0, 0) 0 = None)"
proof -
  have a: "generateGrid (1, 1, 0, 0) 6 = Some []"
    using generateGrid_degenerate [of 0 1 0 1 6] by simp
  have s1: "\<not> js_le (js_add (Fin 0) (Fin (latSpacing (fl 0.1)))) (Fin 0)"
    by (simp add: latSpacing_tenth js_round_def fl_ls_idem pow2_def)
  have s2: "\<not> js_le (js_add (Fin 0) (lonSpacing (0, 0, 0, 0) (fl 0.1))) (Fin 0)"
    by (simp add: lonSpacing_origin js_round_def fl_ls_idem pow2_def)
  have s3: "\<not> js_le (js_add (Fin 0) (lonSpacing (0, 1, 0, - 1) (fl 0.1))) (Fin 0)"
    by (simp add: lonSpacing_def centerLatRad_def js_div_def js_round_def fl_tenth fl_tenth_60
        fl_ls_idem pow2_def)
  have b: "generateGrid (0, 0, 0, 0) (fl 0.1)
          = Some [latitudeLine 0 0 (Fin 0), longitudeLine 0 0 (Fin 0)]"
    using generateGrid_degenerate [of 0 0 0 0 "fl 0.1"] s1 s2 by simp
  have c: "generateGrid (0, 0, 0, 0) 0 = None"
    using generateGrid_degenerate [of 0 0 0 0 0] by simp
  have d: "generateGrid (1, 0, 0, 0) (fl 0.1) = Some [latitudeLine 1 0 (Fin 0)]"
    using generateGrid_degenerate [of 0 1 0 0 "fl 0.1"] s1 by simp
  have e: "generateGrid (0, 1, 0, - 1) (fl 0.1) = Some [longitudeLine 1 (- 1) (Fin 0)]"
    using generateGrid_degenerate [of 0 0 "- 1" 1 "fl 0.1"] s3 by simp
  from a b c d e s1 s2 s3 show ?thesis by simp
qed














section \<open>Current field: theorems\<close>

lemma TIDE_PERIOD_MS_value: "TIDE_PERIOD_MS = 44712000"
  by (simp add: TIDE_PERIOD_MS_def fl_12_42 fl_tide1)

lemma TIDE_PERIOD_MS_pos: "0 < TIDE_PERIOD_MS"
  by (simp add: TIDE_PERIOD_MS_value)

lemma MAX_CURRENT_SPEED_nonneg: "0 \<le> MAX_CURRENT_SPEED"
  by (simp add: MAX_CURRENT_SPEED_def)

lemma js_rem_small: "0 \<le> t \<Longrightarrow> t < TIDE_PERIOD_MS \<Longrightarrow> js_rem t TIDE_PERIOD_MS = t"
  by (simp add: js_rem_def js_trunc_def TIDE_PERIOD_MS_value floor_eq_iff)

lemma js_rem_period:
  assumes "0 \<le> t"
  shows "js_rem (t + TIDE_PERIOD_MS) TIDE_PERIOD_MS = js_rem t TIDE_PERIOD_MS"
proof -
  note p = TIDE_PERIOD_MS_pos
  have q: "(t + TIDE_PERIOD_MS) / TIDE_PERIOD_MS = t / TIDE_PERIOD_MS + 1"
    using p by (simp add: field_simps)
  have "0 \<le> t / TIDE_PERIOD_MS" using assms p by simp
  then have "js_trunc ((t + TIDE_PERIOD_MS) / TIDE_PERIOD_MS) = js_trunc (t / TIDE_PERIOD_MS) + 1"
    unfolding q by (simp add: js_trunc_def)
  then show ?thesis
    by (simp add: js_rem_def algebra_simps)
qed

lemma currentAt_speed_eq:
  assumes "0 \<le> sm"
  shows "speed (currentAt t po sm d lon lat)
         = fl (fl (\<bar>Math_cos (fl (fl (fl (fl (js_rem t TIDE_PERIOD_MS / TIDE_PERIOD_MS) + po) * 2)
                                    * Math_PI))\<bar> * MAX_CURRENT_SPEED) * sm)"
  using assms
  by (simp add: currentAt_def Let_def fl_abs_mult_nonneg MAX_CURRENT_SPEED_nonneg)

lemma currentAt_speed:
  assumes "0 \<le> sm"
  shows "speed (currentAt t po sm d lon lat) \<le> fl (MAX_CURRENT_SPEED * sm)"
proof -
  let ?c = "Math_cos (fl (fl (fl (fl (js_rem t TIDE_PERIOD_MS / TIDE_PERIOD_MS) + po) * 2)
                        * Math_PI))"
  have "\<bar>?c\<bar> * MAX_CURRENT_SPEED \<le> 1 * MAX_CURRENT_SPEED"
    using Math_cos_abs_le [of "fl (fl (fl (fl (js_rem t TIDE_PERIOD_MS / TIDE_PERIOD_MS) + po) * 2)
                        * Math_PI)"]
    by (intro mult_right_mono) (simp_all add: MAX_CURRENT_SPEED_def)
  then have "fl (\<bar>?c\<bar> * MAX_CURRENT_SPEED) \<le> fl (1 * MAX_CURRENT_SPEED)"
    by (rule fl_mono)
  then have "fl (\<bar>?c\<bar> * MAX_CURRENT_SPEED) \<le> MAX_CURRENT_SPEED"
    by (simp add: MAX_CURRENT_SPEED_def fl_3_2)
  then have "fl (\<bar>?c\<bar> * MAX_CURRENT_SPEED) * sm \<le> MAX_CURRENT_SPEED * sm"
    using assms by (rule mult_right_mono)
  then have "fl (fl (\<bar>?c\<bar> * MAX_CURRENT_SPEED) * sm) \<le> fl (MAX_CURRENT_SPEED * sm)"
    by (rule fl_mono)
  then show ?thesis
    unfolding currentAt_speed_eq [OF assms] .
qed

lemma currentAt_color:
  "color (currentAt t po sm d lon lat) = getColor (speed (currentAt t po sm d lon lat))"
  by (simp add: currentAt_def Let_def)

lemma currentAt_period:
  assumes "0 \<le> t"
  shows "currentAt (t + TIDE_PERIOD_MS) po sm d = currentAt t po sm d"
  by (intro ext) (simp add: currentAt_def js_rem_period [OF assms])

lemma generateMockGrid_single:
  "generateMockGrid (0, 0, 0, 0) t 1 po sm d = Some [currentAt t po sm d (Fin 0) (Fin 0)]"
proof -
  have leave: "\<not> js_le (js_add (Fin 0) (Fin 1)) (Fin 0)"
    by (simp add: js_round_def pow2_def)
  have inner: "forLoop (\<lambda>lat points. Some (points @ [currentAt t po sm d lon lat]))
                 (Fin 0) (Fin 0) (Fin 1) points
               = Some (points @ [currentAt t po sm d lon (Fin 0)])" for lon points
    by (simp add: forLoop_once [OF _ leave])
  show ?thesis
    by (simp add: generateMockGrid_def forLoop_once [OF _ leave] inner)
qed

lemma generateMockGrid_period:
  assumes "0 \<le> t"
  shows "generateMockGrid b (t + TIDE_PERIOD_MS) r po sm d = generateMockGrid b t r po sm d"
  by (simp add: generateMockGrid_def currentAt_period [OF assms])

lemma generateMockGrid_points:
  assumes "generateMockGrid bounds t r po sm d = Some g" and "p \<in> set g"
  shows "\<exists>lon lat. p = currentAt t po sm d lon lat"
proof -
  let ?I = "\<lambda>points. \<forall>p \<in> set points. \<exists>lon lat. p = currentAt t po sm d lon lat"
  obtain minLon minLat maxLon maxLat where b: "bounds = (minLon, minLat, maxLon, maxLat)"
    by (cases bounds) auto
  have inner: "?I s'"
    if "?I s"
      and "forLoop (\<lambda>lat points. Some (points @ [currentAt t po sm d lon lat]))
             (Fin minLat) (Fin maxLat) (Fin r) s = Some s'" for lon s s'
  proof (rule forLoop_invariant [where I = ?I, OF _ that(2) that(1)])
    fix x s1 s2
    assume "?I s1" and "Some (s1 @ [currentAt t po sm d lon x]) = Some s2"
    then show "?I s2" by fastforce
  qed
  have run: "forLoop
          (\<lambda>lon. forLoop
             (\<lambda>lat points. Some (points @ [currentAt t po sm d lon lat]))
             (Fin minLat) (Fin maxLat) (Fin r))
          (Fin minLon) (Fin maxLon) (Fin r) [] = Some g"
    using assms(1) by (simp add: generateMockGrid_def b)
  have "?I g"
  proof (rule forLoop_invariant [where I = ?I, OF _ run])
    show "?I []" by simp
  next
    fix x s1 s2
    assume "?I s1"
      and "forLoop (\<lambda>lat points. Some (points @ [currentAt t po sm d x lat]))
             (Fin minLat) (Fin maxLat) (Fin r) s1 = Some s2"
    then show "?I s2" by (rule inner)
  qed
  with assms(2) show ?thesis by blast
qed

lemma generateMockGrid_speed:
  assumes "generateMockGrid bounds t r po sm d = Some g" and "p \<in> set g" and "0 \<le> sm"
  shows "speed p \<le> fl (MAX_CURRENT_SPEED * sm) \<and> color p = getColor (speed p)"
proof -
  from generateMockGrid_points [OF assms(1,2)] obtain lon lat
    where "p = currentAt t po sm d lon lat" by blast
  then show ?thesis
    using currentAt_speed [OF assms(3)] currentAt_color by simp
qed

lemma getGrid_rws_single:
  "getGrid rws (0, 0, 0, 0) t (Some 1) = Some [currentAt t 0 1 0 (Fin 0) (Fin 0)]"
  by (simp add: rws_def resolutionOrDefault_def generateMockGrid_single)

lemma getGrid_cmems_single:
  "getGrid cmems (0, 0, 0, 0) t (Some 1)
   = Some [currentAt t (1 / 4) (fl (4 / 5)) (fl (1 / 10)) (Fin 0) (Fin 0)]"
  by (simp add: cmems_def resolutionOrDefault_def generateMockGrid_single)

lemma getGrid_period_exact:
  assumes "src \<in> set DATA_SOURCES" and "0 \<le> t"
    and "fl (t + TIDE_PERIOD_MS) = t + TIDE_PERIOD_MS"
  shows "getGrid src bounds (fl (t + TIDE_PERIOD_MS)) r = getGrid src bounds t r"
proof -
  from assms(1) have "src = rws \<or> src = cmems"
    by (simp add: DATA_SOURCES_def)
  then show ?thesis
    unfolding assms(3)
    by (auto simp add: rws_def cmems_def generateMockGrid_period [OF assms(2)])
qed

lemma whole_ms_exact:
  assumes "t \<in> \<nat>" and "t + TIDE_PERIOD_MS < 2 ^ 53"
  shows "fl (t + TIDE_PERIOD_MS) = t + TIDE_PERIOD_MS"
proof -
  from assms(1) obtain n :: nat where n: "t = of_nat n"
    by (rule Nats_cases)
  have e: "t + TIDE_PERIOD_MS = of_int (int n + 44712000)"
    by (simp add: n TIDE_PERIOD_MS_value)
  have "real_of_int (int n + 44712000) < 2 ^ 53"
    using assms(2) unfolding e .
  then have "int n + 44712000 < 2 ^ 53"
    by (metis of_int_less_numeral_power_cancel_iff)
  then have "\<bar>int n + 44712000\<bar> < 2 ^ 53"
    by simp
  then show ?thesis
    unfolding e by (rule fl_of_int)
qed

lemma speed_half_period: "speed (currentAt 22356000 0 1 d lon lat) = 3 / 2"
proof -
  have r: "js_rem 22356000 TIDE_PERIOD_MS = 22356000"
    by (rule js_rem_small) (simp_all add: TIDE_PERIOD_MS_value)
  have m: "fl Math_PI = Math_PI"
    by (simp add: Math_PI_def fl_pi)
  have a: "fl (fl (fl (fl (22356000 / TIDE_PERIOD_MS) + 0) * 2) * Math_PI) = Math_PI"
    by (simp add: TIDE_PERIOD_MS_value fl_half m)
  have p: "(0::real) \<le> 1"
    by simp
  show ?thesis
    unfolding currentAt_speed_eq [OF p] r a Math_cos_pi
    by (simp add: MAX_CURRENT_SPEED_def fl_3_2)
qed

lemma angle_after_quarter:
  "fl (fl (fl (fl (js_rem (11178000 + 1 / 2 ^ 29) TIDE_PERIOD_MS / TIDE_PERIOD_MS) + 0) * 2)
         * Math_PI)
   = Math_PI / 2 + 1 / 2 ^ 51"
proof -
  have r: "js_rem (11178000 + 1 / 2 ^ 29) TIDE_PERIOD_MS = 11178000 + 1 / 2 ^ 29"
    by (rule js_rem_small) (simp_all add: TIDE_PERIOD_MS_value)
  show ?thesis
    unfolding r
    by (simp add: TIDE_PERIOD_MS_value fl_phase1 fl_phase1_idem fl_phase1_twice Math_PI_def
        fl_angle1)
qed

lemma angle_at_quarter:
  "fl (fl (fl (fl (js_rem 55890000 TIDE_PERIOD_MS / TIDE_PERIOD_MS) + 0) * 2) * Math_PI)
   = Math_PI / 2"
proof -
  have r: "js_rem 55890000 TIDE_PERIOD_MS = 11178000"
    by (simp add: js_rem_def js_trunc_def TIDE_PERIOD_MS_value)
  show ?thesis
    unfolding r
    by (simp add: TIDE_PERIOD_MS_value fl_quarter fl_half Math_PI_def fl_angle2)
qed

lemma speed_after_quarter:
  "3 / 2 ^ 53 \<le> speed (currentAt (11178000 + 1 / 2 ^ 29) 0 1 d lon lat)"
proof -
  have "fl (cos (Math_PI / 2 + 1 / 2 ^ 51)) \<le> fl (- (1 / 2 ^ 52))"
    by (rule fl_mono) (rule cos_above_half_pi)
  then have "Math_cos (Math_PI / 2 + 1 / 2 ^ 51) \<le> - (1 / 2 ^ 52)"
    by (simp add: Math_cos_def fl_minus fl_p52)
  then have "1 / 2 ^ 52 \<le> \<bar>Math_cos (Math_PI / 2 + 1 / 2 ^ 51)\<bar>"
    by simp
  then have "1 / 2 ^ 52 * MAX_CURRENT_SPEED
             \<le> \<bar>Math_cos (Math_PI / 2 + 1 / 2 ^ 51)\<bar> * MAX_CURRENT_SPEED"
    by (rule mult_right_mono) (rule MAX_CURRENT_SPEED_nonneg)
  then have "fl (1 / 2 ^ 52 * MAX_CURRENT_SPEED)
             \<le> fl (\<bar>Math_cos (Math_PI / 2 + 1 / 2 ^ 51)\<bar> * MAX_CURRENT_SPEED)"
    by (rule fl_mono)
  then have "3 / 2 ^ 53
             \<le> fl (\<bar>Math_cos (Math_PI / 2 + 1 / 2 ^ 51)\<bar> * MAX_CURRENT_SPEED)"
    by (simp add: MAX_CURRENT_SPEED_def fl_s52)
  then show ?thesis
    unfolding currentAt_speed_eq [OF zero_le_one] angle_after_quarter
    by (simp add: fl_idem)
qed

lemma speed_at_quarter:
  "speed (currentAt 55890000 0 1 d lon lat) \<le> 3 / 2 ^ 54"
proof -
  have "fl (cos (Math_PI / 2)) \<le> fl (1 / 2 ^ 53)"
    by (rule fl_mono) (rule cos_below_half_pi)
  moreover have "fl 0 \<le> fl (cos (Math_PI / 2))"
    by (rule fl_mono) (rule cos_below_half_pi)
  ultimately have "\<bar>Math_cos (Math_PI / 2)\<bar> \<le> 1 / 2 ^ 53"
    by (simp add: Math_cos_def fl_p53)
  then have "\<bar>Math_cos (Math_PI / 2)\<bar> * MAX_CURRENT_SPEED \<le> 1 / 2 ^ 53 * MAX_CURRENT_SPEED"
    by (rule mult_right_mono) (rule MAX_CURRENT_SPEED_nonneg)
  then have "fl (\<bar>Math_cos (Math_PI / 2)\<bar> * MAX_CURRENT_SPEED)
             \<le> fl (1 / 2 ^ 53 * MAX_CURRENT_SPEED)"
    by (rule fl_mono)
  then have "fl (\<bar>Math_cos (Math_PI / 2)\<bar> * MAX_CURRENT_SPEED) \<le> 3 / 2 ^ 54"
    by (simp add: MAX_CURRENT_SPEED_def fl_s53)
  then show ?thesis
    unfolding currentAt_speed_eq [OF zero_le_one] angle_at_quarter
    by (simp add: fl_idem)
qed

lemma sum_after_quarter: "fl (11178000 + 1 / 2 ^ 29 + TIDE_PERIOD_MS) = 55890000"
  by (simp add: TIDE_PERIOD_MS_value fl_T_plus)

text \<open>
  C3, as claimed: the grids at \<open>t\<close> and at \<open>t + tidePeriod\<close> agree for every
  \<open>t \<ge> 0\<close>. The sum \<open>t + tidePeriod\<close> is rounded. At \<open>t = 11178000 + 2\<^sup>-\<^sup>2\<^sup>9\<close>
  (a quarter of a period and a little) the sum is rounded to 55890000, a quarter of a
  period exactly: there the angle is \<open>Math.PI / 2\<close>, just below \<open>\<pi> / 2\<close>, and the
  speed is at most \<open>1.5 * 2\<^sup>-\<^sup>5\<^sup>3\<close>, while at \<open>t\<close> the angle is \<open>2\<^sup>-\<^sup>5\<^sup>1\<close> more, the
  cosine is negative and the speed is at least \<open>1.5 * 2\<^sup>-\<^sup>5\<^sup>2\<close>.
\<close>

theorem tidal_period_counterexample:
  "(0::real) \<le> 11178000 + 1 / 2 ^ 29 \<and> isDouble (11178000 + 1 / 2 ^ 29)
   \<and> getGrid rws (0, 0, 0, 0) (11178000 + 1 / 2 ^ 29) (Some 1)
       = Some [currentAt (11178000 + 1 / 2 ^ 29) 0 1 0 (Fin 0) (Fin 0)]
   \<and> getGrid rws (0, 0, 0, 0) (fl (11178000 + 1 / 2 ^ 29 + TIDE_PERIOD_MS)) (Some 1)
       = Some [currentAt 55890000 0 1 0 (Fin 0) (Fin 0)]
   \<and> speed (currentAt 55890000 0 1 0 (Fin 0) (Fin 0))
       < speed (currentAt (11178000 + 1 / 2 ^ 29) 0 1 0 (Fin 0) (Fin 0))"
proof -
  have "speed (currentAt 55890000 0 1 0 (Fin 0) (Fin 0)) \<le> 3 / 2 ^ 54"
    by (rule speed_at_quarter)
  also have "(3 / 2 ^ 54 :: real) < 3 / 2 ^ 53"
    by simp
  also have "3 / 2 ^ 53 \<le> speed (currentAt (11178000 + 1 / 2 ^ 29) 0 1 0 (Fin 0) (Fin 0))"
    by (rule speed_after_quarter)
  finally have "speed (currentAt 55890000 0 1 0 (Fin 0) (Fin 0))
                < speed (currentAt (11178000 + 1 / 2 ^ 29) 0 1 0 (Fin 0) (Fin 0))" .
  moreover have "isDouble (11178000 + 1 / 2 ^ 29)"
    by (simp add: isDouble_def fl_T pow2_def)
  ultimately show ?thesis
    unfolding sum_after_quarter getGrid_rws_single by simp
qed

text \<open>
  C3 (amended): for every source of the registry, every bounding box, resolution and time stamp
  \<open>t \<ge> 0\<close> whose sum with the tidal period is a double (the addition does not round),
  the grids at \<open>t\<close> and at \<open>t + TIDE_PERIOD_MS\<close> are equal, so speed and direction agree
  at every sample point. The sum is a double for every whole number of milliseconds
  \<open>t\<close> with \<open>t + 44712000 < 2\<^sup>5\<^sup>3\<close>.
\<close>

theorem getGrid_tidal_period:
  assumes "src \<in> set DATA_SOURCES" and "0 \<le> t"
  shows "(fl (t + TIDE_PERIOD_MS) = t + TIDE_PERIOD_MS \<longrightarrow>
            getGrid src bounds (fl (t + TIDE_PERIOD_MS)) r = getGrid src bounds t r)
         \<and> (t \<in> \<nat> \<and> t + TIDE_PERIOD_MS < 2 ^ 53 \<longrightarrow>
              fl (t + TIDE_PERIOD_MS) = t + TIDE_PERIOD_MS)
         \<and> TIDE_PERIOD_MS = 44712000"
  using getGrid_period_exact [OF assms] whole_ms_exact [of t] TIDE_PERIOD_MS_value
  by blast

theorem getGrid_tidal_period_witness:
  "rws \<in> set DATA_SOURCES \<and> (0::real) \<le> 22356000 \<and> (22356000::real) \<in> \<nat>
   \<and> 22356000 + TIDE_PERIOD_MS < 2 ^ 53
   \<and> getGrid rws (0, 0, 0, 0) (fl (22356000 + TIDE_PERIOD_MS)) (Some 1)
       = Some [currentAt 22356000 0 1 0 (Fin 0) (Fin 0)]
   \<and> speed (currentAt 22356000 0 1 0 (Fin 0) (Fin 0)) = 1.5"
proof -
  have a: "rws \<in> set DATA_SOURCES"
    by (simp add: DATA_SOURCES_def)
  have b: "(22356000::real) \<in> \<nat>"
    by simp
  have c: "22356000 + TIDE_PERIOD_MS < 2 ^ 53"
    by (simp add: TIDE_PERIOD_MS_value)
  from getGrid_tidal_period [OF a, of 22356000 "(0, 0, 0, 0)" "Some 1"] b c
  have "getGrid rws (0, 0, 0, 0) (fl (22356000 + TIDE_PERIOD_MS)) (Some 1)
        = getGrid rws (0, 0, 0, 0) 22356000 (Some 1)"
    by simp
  then show ?thesis
    using a b c by (simp add: getGrid_rws_single speed_half_period)
qed

lemma getColor_below_fast:
  assumes "s < MAX_CURRENT_SPEED"
  shows "getColor s \<noteq> fastColor"
proof -
  have "fst (getColor s) < 255"
    using assms
    by (auto simp add: getColor_def Let_def MAX_CURRENT_SPEED_def min_def)
  then show ?thesis by (auto simp add: fastColor_def)
qed

lemma cmems_peak_value:
  "fl (MAX_CURRENT_SPEED * fl (4 / 5)) = 1351079888211149 / 1125899906842624"
  by (simp add: MAX_CURRENT_SPEED_def fl_0_8 fl_peak)

lemma speed_cmems_peak:
  "speed (currentAt 33534000 (1 / 4) (fl (4 / 5)) d lon lat)
   = 1351079888211149 / 1125899906842624"
proof -
  have r: "js_rem 33534000 TIDE_PERIOD_MS = 33534000"
    by (rule js_rem_small) (simp_all add: TIDE_PERIOD_MS_value)
  have a: "fl (fl (fl (fl (33534000 / TIDE_PERIOD_MS) + 1 / 4) * 2) * Math_PI) = 2 * Math_PI"
    by (simp add: TIDE_PERIOD_MS_value fl_three_quarters Math_PI_def fl_two_pi)
  have p: "0 \<le> fl (4 / 5)"
    by (simp add: fl_0_8)
  show ?thesis
    unfolding currentAt_speed_eq [OF p] r a Math_cos_two_pi
    by (simp add: MAX_CURRENT_SPEED_def fl_3_2 fl_0_8 fl_peak)
qed

text \<open>
  C10, as claimed: a vector of \<open>cmems\<close> never has a speed above 1.2. At the time stamp
  33534000 (three quarters of a tidal period) the phase of \<open>cmems\<close> is 1, the angle is
  \<open>2 * Math.PI\<close>, whose cosine is 1, and the speed is the product \<open>1.5 * 0.8\<close> of
  doubles, which is 1.2000000000000002.
\<close>

theorem cmems_speed_counterexample:
  "map_option (map speed) (getGrid cmems (0, 0, 0, 0) 33534000 (Some 1))
     = Some [1351079888211149 / 1125899906842624]
   \<and> (12 / 10 :: real) < 1351079888211149 / 1125899906842624"
  by (simp add: getGrid_cmems_single speed_cmems_peak)

text \<open>
  C10 (amended): every vector that a source of the registry returns has a speed of at most the
  product, in doubles, of 1.5 and the speed multiplier of the source: 1.5 for \<open>rws\<close>
  and \<open>1.5 * 0.8\<close> for \<open>cmems\<close>. That product is 1.2000000000000002; it is below 1.5,
  so a vector of \<open>cmems\<close> never has the "fast" colour.
\<close>

theorem source_speed_bound:
  assumes "src \<in> set DATA_SOURCES"
    and "getGrid src bounds t r = Some g" and "p \<in> set g"
  shows "(src = rws \<longrightarrow> speed p \<le> fl (MAX_CURRENT_SPEED * 1))
         \<and> (src = cmems \<longrightarrow>
               speed p \<le> fl (MAX_CURRENT_SPEED * fl 0.8)
               \<and> speed p < MAX_CURRENT_SPEED \<and> color p \<noteq> fastColor)
         \<and> fl (MAX_CURRENT_SPEED * 1) = 1.5
         \<and> fl (MAX_CURRENT_SPEED * fl 0.8) = 1351079888211149 / 1125899906842624"
proof (intro conjI impI)
  assume "src = rws"
  with assms(2) have "generateMockGrid bounds t (resolutionOrDefault r) 0 1 0 = Some g"
    by (simp add: rws_def)
  from generateMockGrid_speed [OF this assms(3)] show "speed p \<le> fl (MAX_CURRENT_SPEED * 1)"
    by simp
next
  assume "src = cmems"
  with assms(2)
  have "generateMockGrid bounds t (resolutionOrDefault r) (1 / 4) (fl (4 / 5)) (fl (1 / 10))
        = Some g"
    by (simp add: cmems_def)
  from generateMockGrid_speed [OF this assms(3)]
  have s: "speed p \<le> fl (MAX_CURRENT_SPEED * fl (4 / 5))"
    and c: "color p = getColor (speed p)"
    by (simp_all add: fl_0_8)
  from s show "speed p \<le> fl (MAX_CURRENT_SPEED * fl 0.8)" by simp
  from s show lt: "speed p < MAX_CURRENT_SPEED"
    unfolding cmems_peak_value by (simp add: MAX_CURRENT_SPEED_def)
  then show "color p \<noteq> fastColor"
    unfolding c by (rule getColor_below_fast)
next
  show "fl (MAX_CURRENT_SPEED * 1) = 1.5"
    by (simp add: MAX_CURRENT_SPEED_def fl_3_2)
next
  show "fl (MAX_CURRENT_SPEED * fl 0.8) = 1351079888211149 / 1125899906842624"
    using cmems_peak_value by simp
qed

theorem source_speed_bound_witness:
  "cmems \<in> set DATA_SOURCES
   \<and> getGrid cmems (0, 0, 0, 0) 33534000 (Some 1)
       = Some [currentAt 33534000 (1 / 4) (fl (4 / 5)) (fl (1 / 10)) (Fin 0) (Fin 0)]
   \<and> currentAt 33534000 (1 / 4) (fl (4 / 5)) (fl (1 / 10)) (Fin 0) (Fin 0)
       \<in> set [currentAt 33534000 (1 / 4) (fl (4 / 5)) (fl (1 / 10)) (Fin 0) (Fin 0)]
   \<and> speed (currentAt 33534000 (1 / 4) (fl (4 / 5)) (fl (1 / 10)) (Fin 0) (Fin 0))
       = fl (MAX_CURRENT_SPEED * fl 0.8)
   \<and> color (currentAt 33534000 (1 / 4) (fl (4 / 5)) (fl (1 / 10)) (Fin 0) (Fin 0))
       \<noteq> fastColor"
  using source_speed_bound [of cmems "(0, 0, 0, 0)" 33534000 "Some 1"
      "[currentAt 33534000 (1 / 4) (fl (4 / 5)) (fl (1 / 10)) (Fin 0) (Fin 0)]"
      "currentAt 33534000 (1 / 4) (fl (4 / 5)) (fl (1 / 10)) (Fin 0) (Fin 0)"]
    getGrid_cmems_single [of 33534000] speed_cmems_peak [of "fl (1 / 10)" "Fin 0" "Fin 0"]
  by (simp add: DATA_SOURCES_def)

end
